theory Spec2Isabelle
  imports Complex_Main
begin

section \<open>Numbers\<close>

text \<open>
  The program computes with JavaScript numbers. A finite number is modelled as a real
  (rounding is not modelled); the three non-finite values are kept apart because
  \<open>calculateElementsPositions\<close> starts its minimum search at \<open>Infinity\<close>.
\<close>

datatype number = Fin real | PosInfinity | NegInfinity | NaN

text \<open>The comparison \<open>a < b\<close> of two numbers (false whenever a \<open>NaN\<close> takes part).\<close>

fun num_less :: "number \<Rightarrow> number \<Rightarrow> bool" where
  "num_less (Fin a) (Fin b) = (a < b)"
| "num_less (Fin a) PosInfinity = True"
| "num_less NegInfinity (Fin b) = True"
| "num_less NegInfinity PosInfinity = True"
| "num_less _ _ = False"

text \<open>The difference \<open>a - b\<close> of two numbers.\<close>

fun num_sub :: "number \<Rightarrow> number \<Rightarrow> number" where
  "num_sub (Fin a) (Fin b) = Fin (a - b)"
| "num_sub NaN _ = NaN"
| "num_sub _ NaN = NaN"
| "num_sub (Fin a) PosInfinity = NegInfinity"
| "num_sub (Fin a) NegInfinity = PosInfinity"
| "num_sub PosInfinity PosInfinity = NaN"
| "num_sub PosInfinity _ = PosInfinity"
| "num_sub NegInfinity NegInfinity = NaN"
| "num_sub NegInfinity _ = NegInfinity"

text \<open>
  Modelled from the spec: \<open>safeNumber\<close> of \<open>src/utils\<close>, which is not among the
  sources. The spec describes it as the numeric sanitizer that maps a non-finite
  result (NaN or an infinity) to the safe default 0; a finite number passes unchanged.
\<close>

fun safeNumber :: "number \<Rightarrow> real" where
  "safeNumber (Fin r) = r"
| "safeNumber _ = 0"

section \<open>Errors\<close>

text \<open>
  Every \<open>throw\<close> of the sources is a value. The sources throw plain \<open>Error\<close>
  objects; the constructors carry the names the spec gives the error kinds:
  \<^item> \<open>InvalidSampleCount\<close>: "Requested amount of points must be positive";
  \<^item> \<open>UnknownCurveType\<close>: "Invalid bezier curve type requested";
  \<^item> \<open>ReferenceNotFound\<close>: "unable to get id of use element" and
    "unable to find def element with id: ...";
  \<^item> \<open>EmptyResolution\<close>: "Unable to create ex element";
  \<^item> \<open>TypeError\<close>: the runtime's own error on reading an index of \<open>undefined\<close>.
\<close>

datatype error =
  InvalidSampleCount | UnknownCurveType | ReferenceNotFound | EmptyResolution | TypeError

section \<open>Curve flattening (elements/path/utils/bezier.ts)\<close>

text \<open>
  A point is the two-entry array \<open>[x, y]\<close>; \<open>coord p i\<close> is the read \<open>p[i]\<close>
  for the two indices 0 and 1 that the sources use.
\<close>

type_synonym point = "real \<times> real"

definition coord :: "point \<Rightarrow> nat \<Rightarrow> real" where
  "coord p i = (if i = 0 then fst p else snd p)"

text \<open>
  \<open>getPointOfCubicCurve\<close> reads the control points 0 to 3. Reading an entry of a
  control point that is not there (\<open>controlCoordinates[3][i]\<close> on a shorter list) is
  a \<open>TypeError\<close> of the runtime.
\<close>

definition getPointOfCubicCurve :: "point list \<Rightarrow> real \<Rightarrow> error + point" where
  "getPointOfCubicCurve controlCoordinates section =
     (case controlCoordinates of
        c0 # c1 # c2 # c3 # _ \<Rightarrow>
          (let coordinates = (\<lambda>i.
                 coord c0 i * (1 - section) ^ 3 +
                 3 * coord c1 i * section * (1 - section) ^ 2 +
                 3 * coord c2 i * section ^ 2 * (1 - section) +
                 coord c3 i * section ^ 3)
           in Inr (safeNumber (Fin (coordinates 0)), safeNumber (Fin (coordinates 1))))
      | _ \<Rightarrow> Inl TypeError)"

definition getPointOfQuadraticCurve :: "point list \<Rightarrow> real \<Rightarrow> error + point" where
  "getPointOfQuadraticCurve controlCoordinates section =
     (case controlCoordinates of
        c0 # c1 # c2 # _ \<Rightarrow>
          (let coordinates = (\<lambda>i.
                 coord c0 i * (1 - section) ^ 2 +
                 2 * coord c1 i * section * (1 - section) +
                 coord c2 i * section ^ 2)
           in Inr (safeNumber (Fin (coordinates 0)), safeNumber (Fin (coordinates 1))))
      | _ \<Rightarrow> Inl TypeError)"

text \<open>
  \<open>Array.from({length: n}, f)\<close> calls \<open>f\<close> on the indices in order; the first
  call that throws ends the whole construction.
\<close>

primrec Array_from :: "('a \<Rightarrow> error + 'b) \<Rightarrow> 'a list \<Rightarrow> error + 'b list" where
  "Array_from f [] = Inr []"
| "Array_from f (i # is) =
     (case f i of
        Inl e \<Rightarrow> Inl e
      | Inr p \<Rightarrow> (case Array_from f is of Inl e \<Rightarrow> Inl e | Inr ps \<Rightarrow> Inr (p # ps)))"

text \<open>
  \<open>curveToPoints\<close>; the sample count is an integer (its default 10 is the caller's
  to pass). The curve type is a string, compared as the source compares it.
\<close>

definition curveToPoints :: "string \<Rightarrow> point list \<Rightarrow> int \<Rightarrow> error + point list" where
  "curveToPoints ty controlPoints nbPoints =
     (if nbPoints \<le> 0 then Inl InvalidSampleCount
      else
        (let nb = (if nbPoints > 100 then 100 else nbPoints)
         in Array_from
              (\<lambda>index.
                 let section = safeNumber (Fin (((100 / real_of_int nb) * (real index + 1)) / 100))
                 in if ty = ''cubic'' then getPointOfCubicCurve controlPoints section
                    else if ty = ''quadratic'' then getPointOfQuadraticCurve controlPoints section
                    else Inl UnknownCurveType)
              [0..<nat nb]))"

text \<open>
  The two evaluation formulas as the spec writes them, coordinate by coordinate:
  \<open>B(t) = P0(1-t)^2 + 2 P1 t(1-t) + P2 t^2\<close> and
  \<open>B(t) = P0(1-t)^3 + 3 P1 t(1-t)^2 + 3 P2 t^2(1-t) + P3 t^3\<close>.
\<close>

definition spec_quadratic :: "point \<Rightarrow> point \<Rightarrow> point \<Rightarrow> real \<Rightarrow> point" where
  "spec_quadratic P0 P1 P2 t =
     (fst P0 * (1 - t)\<^sup>2 + 2 * fst P1 * (t * (1 - t)) + fst P2 * t\<^sup>2,
      snd P0 * (1 - t)\<^sup>2 + 2 * snd P1 * (t * (1 - t)) + snd P2 * t\<^sup>2)"

definition spec_cubic :: "point \<Rightarrow> point \<Rightarrow> point \<Rightarrow> point \<Rightarrow> real \<Rightarrow> point" where
  "spec_cubic P0 P1 P2 P3 t =
     (fst P0 * (1 - t) ^ 3 + 3 * fst P1 * (t * (1 - t)\<^sup>2) + 3 * fst P2 * (t\<^sup>2 * (1 - t)) + fst P3 * t ^ 3,
      snd P0 * (1 - t) ^ 3 + 3 * snd P1 * (t * (1 - t)\<^sup>2) + 3 * snd P2 * (t\<^sup>2 * (1 - t)) + snd P3 * t ^ 3)"

section \<open>Position normalizer (walker.ts, calculateElementsPositions)\<close>

record RawElement =
  type :: string
  x :: real
  y :: real
  width :: real
  height :: real
  points :: "point list"

text \<open>
  The callback of \<open>elements.reduce\<close>: the running minimum point, lowered by one
  element. The search starts at \<open>{x: Infinity, y: Infinity}\<close>.
\<close>

definition minPoint_reducer ::
  "number \<times> number \<Rightarrow> 'a RawElement_scheme \<Rightarrow> number \<times> number" where
  "minPoint_reducer minPoint element =
     (let mx = (if num_less (Fin (x element)) (fst minPoint) then Fin (x element) else fst minPoint);
          my = (if num_less (Fin (y element)) (snd minPoint) then Fin (y element) else snd minPoint)
      in (mx, my))"

definition calculateElementsPositions ::
  "'a RawElement_scheme list \<Rightarrow> 'a RawElement_scheme list" where
  "calculateElementsPositions elements =
     (let minPoint = foldl minPoint_reducer (PosInfinity, PosInfinity) elements;
          minX = fst minPoint;
          minY = snd minPoint
      in map (\<lambda>element.
                let ex = safeNumber (num_sub (Fin (x element)) minX);
                    ey = safeNumber (num_sub (Fin (y element)) minY)
                in element
                     \<lparr> points :=
                         map (\<lambda>(pX, pY).
                                (safeNumber (num_sub (Fin (pX - ex)) minX),
                                 safeNumber (num_sub (Fin (pY - ey)) minY)))
                             (points element),
                       x := ex,
                       y := ey \<rparr>)
             elements)"

text \<open>A batch that is normalized but whose second element does not sit at the origin.\<close>

definition shifted_batch :: "RawElement list" where
  "shifted_batch =
     [\<lparr>type = ''line'', x = 0, y = 0, width = 1, height = 1, points = [(0, 0)]\<rparr>,
      \<lparr>type = ''line'', x = 5, y = 0, width = 1, height = 1, points = [(1, 1)]\<rparr>]"

text \<open>A batch that is not normalized: its minimum corner is \<open>(2, 3)\<close>.\<close>

definition raw_batch :: "RawElement list" where
  "raw_batch =
     [\<lparr>type = ''line'', x = 7, y = 3, width = 1, height = 1, points = [(8, 5)]\<rparr>,
      \<lparr>type = ''line'', x = 2, y = 4, width = 1, height = 1, points = [(2, 4), (3, 6)]\<rparr>]"

section \<open>The document tree\<close>

text \<open>
  The walker reads the document through the DOM: the name and the attributes of a node,
  its children, and a \<open>TreeWalker\<close>. An \<open>Element\<close> value is an element taken by
  itself (its name and its attributes, in document order); a node is an element with its
  children. A node that is not an element (a text node, a comment, the document) carries
  its DOM node name, which starts with \<open>#\<close>, and no attributes.
\<close>

datatype Element = Element (tagName: string) (attributes: "(string \<times> string) list")

datatype node = Node (element: Element) (childNodes: "node list")

definition getAttribute :: "Element \<Rightarrow> string \<Rightarrow> string option" where
  "getAttribute el name = map_of (attributes el) name"

definition hasAttribute :: "Element \<Rightarrow> string \<Rightarrow> bool" where
  "hasAttribute el name = (name \<in> fst ` set (attributes el))"

text \<open>\<open>setAttribute\<close> replaces the value of an attribute in place, or appends a new one.\<close>

fun set_attr :: "(string \<times> string) list \<Rightarrow> string \<Rightarrow> string \<Rightarrow> (string \<times> string) list" where
  "set_attr [] name v = [(name, v)]"
| "set_attr ((k, u) # as) name v = (if k = name then (k, v) # as else (k, u) # set_attr as name v)"

definition setAttribute :: "Element \<Rightarrow> string \<Rightarrow> string \<Rightarrow> Element" where
  "setAttribute el name v = Element (tagName el) (set_attr (attributes el) name v)"

text \<open>\<open>cloneNode()\<close> without an argument is the shallow copy: the children are left behind.\<close>

definition cloneNode :: "node \<Rightarrow> node" where
  "cloneNode n = Node (element n) []"

text \<open>
  The operator \<open>a || b\<close> on values that are a string or \<open>null\<close>: \<open>null\<close> and
  the empty string are the falsy ones.
\<close>

definition truthy :: "string option \<Rightarrow> bool" where
  "truthy v = (case v of None \<Rightarrow> False | Some s \<Rightarrow> s \<noteq> [])"

definition js_or :: "string option \<Rightarrow> string option \<Rightarrow> string option" where
  "js_or a b = (if truthy a then a else b)"

text \<open>\<open>v || ""\<close>: the string itself, and the empty string for \<open>null\<close>.\<close>

definition or_empty :: "string option \<Rightarrow> string" where
  "or_empty v = (case v of None \<Rightarrow> [] | Some s \<Rightarrow> s)"

text \<open>The document, as \<open>root.querySelector\<close> answers on it.\<close>

type_synonym Document = "string \<Rightarrow> node option"

subsection \<open>The node filter and the tree walker\<close>

definition SUPPORTED_TAGS :: "string list" where
  "SUPPORTED_TAGS = [''svg'', ''path'', ''g'', ''use'', ''circle'', ''ellipse'', ''rect'', ''polyline'']"

datatype NodeFilter = FILTER_ACCEPT | FILTER_REJECT

definition nodeValidator :: "Element \<Rightarrow> NodeFilter" where
  "nodeValidator n = (if tagName n \<in> set SUPPORTED_TAGS then FILTER_ACCEPT else FILTER_REJECT)"

text \<open>
  A \<open>TreeWalker\<close> as \<open>createTreeWalker\<close> makes it (every node shown, filter
  \<open>nodeValidator\<close>), after the DOM standard. Its state is the current node and the
  way back to the walker's root: for each ancestor, innermost first, the ancestor's
  element and the siblings that follow the path's node under it. The walker of the
  sources only moves forward, so the siblings on the left are not kept. At the root,
  \<open>above\<close> is empty.

  A rejected node is passed over with its whole subtree (\<open>FILTER_REJECT\<close>; the
  filter never answers \<open>FILTER_SKIP\<close>).
\<close>

record TreeWalker =
  currentNode :: node
  above :: "(Element \<times> node list) list"

definition createTreeWalker :: "node \<Rightarrow> TreeWalker" where
  "createTreeWalker domNode = \<lparr>currentNode = domNode, above = []\<rparr>"

text \<open>The first accepted node of a list of siblings, with the siblings after it.\<close>

fun first_accepted :: "node list \<Rightarrow> (node \<times> node list) option" where
  "first_accepted [] = None"
| "first_accepted (n # ns) =
     (if nodeValidator (element n) = FILTER_ACCEPT then Some (n, ns) else first_accepted ns)"

text \<open>
  The next accepted node after the subtree of the current node: among its following
  siblings, then among those of its parent, and so on, never leaving the root.
\<close>

fun following :: "(Element \<times> node list) list \<Rightarrow> (node \<times> (Element \<times> node list) list) option" where
  "following [] = None"
| "following ((parent, siblings) # ab) =
     (case first_accepted siblings of
        Some (n, rest) \<Rightarrow> Some (n, (parent, rest) # ab)
      | None \<Rightarrow> following ab)"

text \<open>
  \<open>nextNode()\<close>: the first accepted child, else the next accepted node after the
  subtree. It returns the node (or \<open>null\<close>) and moves the walker to it.
\<close>

definition nextNode :: "TreeWalker \<Rightarrow> TreeWalker \<times> node option" where
  "nextNode tw =
     (case first_accepted (childNodes (currentNode tw)) of
        Some (n, rest) \<Rightarrow>
          (\<lparr>currentNode = n, above = (element (currentNode tw), rest) # above tw\<rparr>, Some n)
      | None \<Rightarrow>
          (case following (above tw) of
             Some (n, ab) \<Rightarrow> (\<lparr>currentNode = n, above = ab\<rparr>, Some n)
           | None \<Rightarrow> (tw, None)))"

text \<open>
  \<open>nextSibling()\<close>: the next accepted sibling. When there is none, the standard
  climbs to the parent and goes on with the parent's siblings only if the parent is
  neither the root nor an accepted node.
\<close>

fun nextSibling_from :: "(Element \<times> node list) list \<Rightarrow> (node \<times> (Element \<times> node list) list) option" where
  "nextSibling_from [] = None"
| "nextSibling_from ((parent, siblings) # ab) =
     (case first_accepted siblings of
        Some (n, rest) \<Rightarrow> Some (n, (parent, rest) # ab)
      | None \<Rightarrow>
          (if ab = [] then None
           else if nodeValidator parent = FILTER_ACCEPT then None
           else nextSibling_from ab))"

definition nextSibling :: "TreeWalker \<Rightarrow> TreeWalker \<times> node option" where
  "nextSibling tw =
     (case nextSibling_from (above tw) of
        Some (n, ab) \<Rightarrow> (\<lparr>currentNode = n, above = ab\<rparr>, Some n)
      | None \<Rightarrow> (tw, None))"

section \<open>Reference resolution: the merged element (walker.ts, getDefElWithCorrectAttrs)\<close>

definition skippedUseAttrs :: "string list" where
  "skippedUseAttrs = [''id'']"

definition allwaysPassedUseAttrs :: "string list" where
  "allwaysPassedUseAttrs = [''x'', ''y'', ''width'', ''height'', ''href'', ''xlink:href'']"

text \<open>
  The reduction runs over the attributes of the \<open>use\<close> element, each a pair of
  \<open>attr.name\<close> and \<open>attr.value\<close>, and starts from the shallow copy of the
  definition. The first test of the source reads \<open>attr.value\<close>.
\<close>

definition getDefElWithCorrectAttrs :: "node \<Rightarrow> node \<Rightarrow> node" where
  "getDefElWithCorrectAttrs defEl useEl =
     foldl (\<lambda>el attr.
              if snd attr \<in> set skippedUseAttrs then el
              else if \<not> hasAttribute (element defEl) (fst attr) \<or> fst attr \<in> set allwaysPassedUseAttrs
                   then Node (setAttribute (element el) (fst attr)
                                (or_empty (getAttribute (element useEl) (fst attr))))
                             (childNodes el)
                   else el)
           (cloneNode defEl) (attributes (element useEl))"

section \<open>The scene and the collaborators of the walker\<close>

text \<open>
  A target element is a JavaScript object: a finite map from property names to values.
  The object spread \<open>{...a, ...b, k: v}\<close> is the map \<open>a ++ b ++ [k \<mapsto> v]\<close>, in
  which the later source wins.
\<close>

datatype jsvalue = Num real | Str string | Points "point list" | Strings "string list"

type_synonym obj = "string \<rightharpoonup> jsvalue"

definition obj_of_RawElement :: "RawElement \<Rightarrow> obj" where
  "obj_of_RawElement e =
     [''type'' \<mapsto> Str (type e), ''x'' \<mapsto> Num (x e), ''y'' \<mapsto> Num (y e),
      ''width'' \<mapsto> Num (width e), ''height'' \<mapsto> Num (height e), ''points'' \<mapsto> Points (points e)]"

text \<open>
  The scene (types.ts, \<open>ExcalidrawScene\<close>): the ordered list of its elements. The
  fields \<open>type\<close>, \<open>version\<close> and \<open>source\<close> of the envelope are constants and
  are not modelled.
\<close>

record ExcalidrawScene =
  elements :: "obj list"

definition new_ExcalidrawScene :: ExcalidrawScene where
  "new_ExcalidrawScene = \<lparr>elements = []\<rparr>"

text \<open>\<open>scene.elements.push(e)\<close>\<close>

definition push :: "ExcalidrawScene \<Rightarrow> obj \<Rightarrow> ExcalidrawScene" where
  "push sc e = sc\<lparr>elements := elements sc @ [e]\<rparr>"

text \<open>
  \<open>tempScene.elements.pop()\<close>: the last element (and the list without it), or
  \<open>undefined\<close> on an empty list.
\<close>

definition pop :: "obj list \<Rightarrow> (obj \<times> obj list) option" where
  "pop es = (if es = [] then None else Some (last es, butlast es))"

text \<open>
  Modelled from the spec: the class \<open>Group\<close> of \<open>src/elements/Group\<close>, which is not
  among the sources. A group stands for one \<open>g\<close> container met during the traversal
  and carries an identifier (the source reads it as \<open>g.id\<close>) and the element it was
  made from. How the class chooses the identifier is its own business: the constructor
  is a parameter of the model.
\<close>

record Group =
  group_id :: string
  group_element :: Element

text \<open>
  A homogeneous 4x4 matrix of gl-matrix (\<open>mat4\<close>): sixteen entries in column-major
  order, read by index.
\<close>

type_synonym mat4 = "nat \<Rightarrow> real"

definition mat4_fromValues :: "real list \<Rightarrow> mat4" where
  "mat4_fromValues vs = (\<lambda>i. if i < length vs then vs ! i else 0)"

text \<open>\<open>mat4.multiply(out, a, b)\<close>: the product \<open>a b\<close>.\<close>

definition mat4_multiply :: "mat4 \<Rightarrow> mat4 \<Rightarrow> mat4" where
  "mat4_multiply a b =
     (\<lambda>i. let r = i mod 4; c = i div 4
          in b (4 * c) * a r + b (4 * c + 1) * a (4 + r) + b (4 * c + 2) * a (8 + r)
             + b (4 * c + 3) * a (12 + r))"

text \<open>
  \<open>vec3.transformMat4(out, [px, py, 1], m)\<close>, of which the walker keeps the first two
  entries. A zero fourth coordinate is replaced by 1 (\<open>w = w || 1.0\<close>).
\<close>

definition vec3_transformMat4 :: "point \<Rightarrow> mat4 \<Rightarrow> point" where
  "vec3_transformMat4 p m =
     (let px = fst p; py = snd p; pz = 1;
          w0 = m 3 * px + m 7 * py + m 11 * pz + m 15;
          w = (if w0 = 0 then 1 else w0)
      in ((m 0 * px + m 4 * py + m 8 * pz + m 12) / w,
          (m 1 * px + m 5 * py + m 9 * pz + m 13) / w))"

text \<open>
  The collaborators of the walker that are not among the sources (\<open>./attributes\<close>,
  \<open>./transform\<close>, \<open>./elements\<close>, \<open>./elements/ExcalidrawElement\<close>,
  \<open>./elements/Group\<close>) are parameters of the model. Each reads the element it is given
  through its name and attributes.
\<close>

record collab =
  newGroup :: "Element \<Rightarrow> Group"
  getGroupAttrs :: "Group list \<Rightarrow> obj"
  presAttrsToElementValues :: "Element \<Rightarrow> obj"
  filterAttrsToElementValues :: "Element \<Rightarrow> obj"
  getNum :: "Element \<Rightarrow> string \<Rightarrow> real \<Rightarrow> real"
  getTransformMatrix :: "Element \<Rightarrow> Group list \<Rightarrow> mat4"
  createExRect :: obj
  createExEllipse :: obj
  createExLine :: obj
  path_convert :: "Element \<Rightarrow> RawElement list"

definition presAttrs :: "collab \<Rightarrow> Element \<Rightarrow> Group list \<Rightarrow> obj" where
  "presAttrs C el groups =
     getGroupAttrs C groups ++ presAttrsToElementValues C el ++ filterAttrsToElementValues C el"

section \<open>The walker (walker.ts)\<close>

record WalkerArgs =
  root :: Document
  tw :: TreeWalker
  scene :: ExcalidrawScene
  groups :: "Group list"

text \<open>
  \<open>walk\<close> returns nothing; what it does is change the scene object of its arguments,
  and it may throw. An outcome is the state of that scene object when the call returns,
  or when an error leaves it.
\<close>

datatype outcome = Returned ExcalidrawScene | Thrown error ExcalidrawScene

type_synonym walk_fn = "WalkerArgs \<Rightarrow> node option \<Rightarrow> outcome option"

text \<open>
  The call \<open>walk(args, args.tw.nextNode())\<close> that ends most walkers: the walker of
  \<open>args\<close> moves on, and the walk goes on with the node it returns.
\<close>

definition walk_nextNode :: "walk_fn \<Rightarrow> WalkerArgs \<Rightarrow> outcome option" where
  "walk_nextNode walk args =
     (case nextNode (tw args) of (tw', node) \<Rightarrow> walk (args\<lparr>tw := tw'\<rparr>) node)"

definition walkers_svg :: "walk_fn \<Rightarrow> collab \<Rightarrow> WalkerArgs \<Rightarrow> outcome option" where
  "walkers_svg walk C args = walk_nextNode walk args"

text \<open>
  \<open>g\<close>: the subtree is walked by a walker of its own, with one more group, on the
  same scene object; then the walk resumes with the caller's arguments at the next
  sibling. An error of the first walk leaves through this one.
\<close>

definition walkers_g :: "walk_fn \<Rightarrow> collab \<Rightarrow> WalkerArgs \<Rightarrow> outcome option" where
  "walkers_g walk C args =
     (let nextArgs = args
            \<lparr> tw := createTreeWalker (currentNode (tw args)),
              groups := groups args @ [newGroup C (element (currentNode (tw args)))] \<rparr>
      in case walk_nextNode walk nextArgs of
           None \<Rightarrow> None
         | Some (Thrown e sc) \<Rightarrow> Some (Thrown e sc)
         | Some (Returned sc) \<Rightarrow>
             (case nextSibling (tw args) of
                (tw', node) \<Rightarrow> walk (args\<lparr>tw := tw', scene := sc\<rparr>) node))"

text \<open>
  \<open>use\<close>: the merged element is walked on a scene of its own; an error of that walk
  leaves through this one, and the caller's scene object is then as it was.
\<close>

definition walkers_use :: "walk_fn \<Rightarrow> collab \<Rightarrow> WalkerArgs \<Rightarrow> outcome option" where
  "walkers_use walk C args =
     (let useEl = currentNode (tw args);
          id = js_or (getAttribute (element useEl) ''href'') (getAttribute (element useEl) ''xlink:href'')
      in if \<not> truthy id then Some (Thrown ReferenceNotFound (scene args))
         else
           (case root args (or_empty id) of
              None \<Rightarrow> Some (Thrown ReferenceNotFound (scene args))
            | Some defEl \<Rightarrow>
                (let tempScene = new_ExcalidrawScene;
                     finalEl = getDefElWithCorrectAttrs defEl useEl
                 in case walk (args\<lparr>scene := tempScene, tw := createTreeWalker finalEl\<rparr>) (Some finalEl) of
                      None \<Rightarrow> None
                    | Some (Thrown e sc) \<Rightarrow> Some (Thrown e (scene args))
                    | Some (Returned sc) \<Rightarrow>
                        (case pop (elements sc) of
                           None \<Rightarrow> Some (Thrown EmptyResolution (scene args))
                         | Some (exEl, rest) \<Rightarrow>
                             walk_nextNode walk (args\<lparr>scene := push (scene args) exEl\<rparr>)))))"

definition walkers_circle :: "walk_fn \<Rightarrow> collab \<Rightarrow> WalkerArgs \<Rightarrow> outcome option" where
  "walkers_circle walk C args =
     (let el = element (currentNode (tw args));
          r = getNum C el ''r'' 0;
          d = r * 2;
          x' = getNum C el ''x'' 0 + getNum C el ''cx'' 0 - r;
          y' = getNum C el ''y'' 0 + getNum C el ''cy'' 0 - r;
          mat = getTransformMatrix C el (groups args);
          m = mat4_fromValues [d, 0, 0, 0, 0, d, 0, 0, 0, 0, 1, 0, x', y', 0, 1];
          result = mat4_multiply mat m;
          circle = createExEllipse C ++ presAttrs C el (groups args) ++
            [''x'' \<mapsto> Num (result 12), ''y'' \<mapsto> Num (result 13),
             ''width'' \<mapsto> Num (result 0), ''height'' \<mapsto> Num (result 5),
             ''groupIds'' \<mapsto> Strings (map group_id (groups args))]
      in walk_nextNode walk (args\<lparr>scene := push (scene args) circle\<rparr>))"

definition walkers_ellipse :: "walk_fn \<Rightarrow> collab \<Rightarrow> WalkerArgs \<Rightarrow> outcome option" where
  "walkers_ellipse walk C args =
     (let el = element (currentNode (tw args));
          rx = getNum C el ''rx'' 0;
          ry = getNum C el ''ry'' 0;
          cx = getNum C el ''cx'' 0;
          cy = getNum C el ''cy'' 0;
          x' = getNum C el ''x'' 0 + cx - rx;
          y' = getNum C el ''y'' 0 + cy - ry;
          w = rx * 2;
          h = ry * 2;
          mat = getTransformMatrix C el (groups args);
          m = mat4_fromValues [w, 0, 0, 0, 0, h, 0, 0, 0, 0, 1, 0, x', y', 0, 1];
          result = mat4_multiply mat m;
          ellipse = createExEllipse C ++ presAttrs C el (groups args) ++
            [''x'' \<mapsto> Num (result 12), ''y'' \<mapsto> Num (result 13),
             ''width'' \<mapsto> Num (result 0), ''height'' \<mapsto> Num (result 5),
             ''groupIds'' \<mapsto> Strings (map group_id (groups args))]
      in walk_nextNode walk (args\<lparr>scene := push (scene args) ellipse\<rparr>))"

definition walkers_line :: "walk_fn \<Rightarrow> collab \<Rightarrow> WalkerArgs \<Rightarrow> outcome option" where
  "walkers_line walk C args = walk_nextNode walk args"

definition walkers_polygon :: "walk_fn \<Rightarrow> collab \<Rightarrow> WalkerArgs \<Rightarrow> outcome option" where
  "walkers_polygon walk C args = walk_nextNode walk args"

definition walkers_polyline :: "walk_fn \<Rightarrow> collab \<Rightarrow> WalkerArgs \<Rightarrow> outcome option" where
  "walkers_polyline walk C args =
     (let groupAttrs = getGroupAttrs C (groups args);
          line = createExLine C ++ groupAttrs
      in walk_nextNode walk (args\<lparr>scene := push (scene args) line\<rparr>))"

definition walkers_rect :: "walk_fn \<Rightarrow> collab \<Rightarrow> WalkerArgs \<Rightarrow> outcome option" where
  "walkers_rect walk C args =
     (let el = element (currentNode (tw args));
          x' = getNum C el ''x'' 0;
          y' = getNum C el ''y'' 0;
          w = getNum C el ''width'' 0;
          h = getNum C el ''height'' 0;
          mat = getTransformMatrix C el (groups args);
          m = mat4_fromValues [w, 0, 0, 0, 0, h, 0, 0, 0, 0, 1, 0, x', y', 0, 1];
          result = mat4_multiply mat m;
          isRound = (hasAttribute el ''rx'' \<or> hasAttribute el ''ry'');
          rect = createExRect C ++ presAttrs C el (groups args) ++
            [''x'' \<mapsto> Num (result 12), ''y'' \<mapsto> Num (result 13),
             ''width'' \<mapsto> Num (result 0), ''height'' \<mapsto> Num (result 5),
             ''strokeSharpness'' \<mapsto> Str (if isRound then ''round'' else ''sharp'')]
      in walk_nextNode walk (args\<lparr>scene := push (scene args) rect\<rparr>))"

definition walkers_path :: "walk_fn \<Rightarrow> collab \<Rightarrow> WalkerArgs \<Rightarrow> outcome option" where
  "walkers_path walk C args =
     (let el = element (currentNode (tw args));
          pathElements = path_convert C el;
          mat = getTransformMatrix C el (groups args);
          exPaths = map (\<lambda>exp.
                      obj_of_RawElement
                        (exp\<lparr>points := map (\<lambda>p. vec3_transformMat4 p mat) (points exp)\<rparr>)
                      ++ presAttrs C el (groups args))
                    (calculateElementsPositions pathElements)
      in walk_nextNode walk (args\<lparr>scene := (scene args)\<lparr>elements := elements (scene args) @ exPaths\<rparr>\<rparr>))"

text \<open>
  \<open>walk\<close>: nothing on \<open>null\<close>; otherwise the walker registered under the node's
  name, and nothing when there is none (the table is read through the ten keys it
  defines). Each call of \<open>walk\<close> on a node takes one unit
  of fuel: the reference of a \<open>use\<close> element may lead back to itself, and then the
  sources never return. \<open>None\<close> is a walk that ran out of fuel.
\<close>

fun walk :: "nat \<Rightarrow> collab \<Rightarrow> WalkerArgs \<Rightarrow> node option \<Rightarrow> outcome option" where
  "walk fuel C args None = Some (Returned (scene args))"
| "walk 0 C args (Some node) = None"
| "walk (Suc fuel) C args (Some node) =
     (let nodeName = tagName (element node)
      in if nodeName = ''svg'' then walkers_svg (walk fuel C) C args
         else if nodeName = ''g'' then walkers_g (walk fuel C) C args
         else if nodeName = ''use'' then walkers_use (walk fuel C) C args
         else if nodeName = ''circle'' then walkers_circle (walk fuel C) C args
         else if nodeName = ''ellipse'' then walkers_ellipse (walk fuel C) C args
         else if nodeName = ''line'' then walkers_line (walk fuel C) C args
         else if nodeName = ''polygon'' then walkers_polygon (walk fuel C) C args
         else if nodeName = ''polyline'' then walkers_polyline (walk fuel C) C args
         else if nodeName = ''rect'' then walkers_rect (walk fuel C) C args
         else if nodeName = ''path'' then walkers_path (walk fuel C) C args
         else Some (Returned (scene args)))"

section \<open>The document without its unsupported nodes\<close>

text \<open>
  \<open>prune\<close> deletes, below a node, every node that the filter rejects, together with
  its subtree; \<open>prune_tw\<close> does the same to what a tree walker holds of the document.
\<close>

fun prune :: "node \<Rightarrow> node" and prune_list :: "node list \<Rightarrow> node list" where
  "prune (Node e cs) = Node e (prune_list cs)"
| "prune_list [] = []"
| "prune_list (c # cs) =
     (if nodeValidator (element c) = FILTER_ACCEPT then prune c # prune_list cs else prune_list cs)"

definition prune_tw :: "TreeWalker \<Rightarrow> TreeWalker" where
  "prune_tw t =
     \<lparr>currentNode = prune (currentNode t),
      above = map (\<lambda>(parent, siblings). (parent, prune_list siblings)) (above t)\<rparr>"

definition prune_args :: "WalkerArgs \<Rightarrow> WalkerArgs" where
  "prune_args a = a\<lparr>tw := prune_tw (tw a)\<rparr>"

text \<open>A walk function that cannot tell a document from its pruned copy.\<close>

definition ignores_pruning :: "walk_fn \<Rightarrow> bool" where
  "ignores_pruning w = (\<forall>a n. w (prune_args a) (map_option prune n) = w a n)"

section \<open>Fuel and the size of a document\<close>

text \<open>A walk function that agrees with another wherever the other has an outcome.\<close>

definition extends_fn :: "walk_fn \<Rightarrow> walk_fn \<Rightarrow> bool" where
  "extends_fn w w' = (\<forall>a n r. w a n = Some r \<longrightarrow> w' a n = Some r)"

text \<open>
  The number of nodes of a subtree, and the number of nodes that a tree walker has
  still before it: those below its current node and those after it.
\<close>

fun weight :: "node \<Rightarrow> nat" and weights :: "node list \<Rightarrow> nat" where
  "weight (Node e cs) = Suc (weights cs)"
| "weights [] = 0"
| "weights (c # cs) = weight c + weights cs"

definition remaining :: "TreeWalker \<Rightarrow> nat" where
  "remaining t = weights (childNodes (currentNode t)) + sum_list (map (\<lambda>(parent, siblings). weights siblings) (above t))"

text \<open>A subtree, and a tree walker, without any \<open>use\<close> element.\<close>

fun use_free :: "node \<Rightarrow> bool" and use_free_list :: "node list \<Rightarrow> bool" where
  "use_free (Node e cs) = (tagName e \<noteq> ''use'' \<and> use_free_list cs)"
| "use_free_list [] = True"
| "use_free_list (c # cs) = (use_free c \<and> use_free_list cs)"

definition use_free_tw :: "TreeWalker \<Rightarrow> bool" where
  "use_free_tw t = (use_free (currentNode t) \<and> list_all (\<lambda>(parent, siblings). use_free_list siblings) (above t))"

text \<open>
  A walk function that returns, without an error, on every position in a document
  without \<open>use\<close> elements that has fewer than \<open>f\<close> nodes before it.
\<close>

definition returns :: "walk_fn \<Rightarrow> nat \<Rightarrow> bool" where
  "returns w f = (\<forall>a. use_free_tw (tw a) \<and> remaining (tw a) < f \<longrightarrow>
                      (\<exists>sc. w a (Some (currentNode (tw a))) = Some (Returned sc)))"

section \<open>The elements of the shapes among the children of a node\<close>

text \<open>A node that the filter of the tree walker accepts.\<close>

definition supported :: "node \<Rightarrow> bool" where
  "supported n = (tagName (element n) \<in> set SUPPORTED_TAGS)"

text \<open>
  The supported tags whose walker looks at its own node only: it appends what it builds
  from the attributes of the node and goes on with \<open>nextNode\<close>. The other supported
  tags are \<open>svg\<close>, \<open>g\<close> and \<open>use\<close>.
\<close>

definition leaf_shapes :: "string list" where
  "leaf_shapes = [''circle'', ''ellipse'', ''rect'', ''polyline'', ''path'']"

text \<open>
  What the walker of such a tag appends for its node, standing in the groups \<open>gs\<close>:
  the object literal of \<open>walkers.circle\<close>, \<open>walkers.ellipse\<close>, \<open>walkers.rect\<close> and
  \<open>walkers.polyline\<close>, and the mapped paths of \<open>walkers.path\<close>.
\<close>

definition leaf_elements :: "collab \<Rightarrow> Group list \<Rightarrow> Element \<Rightarrow> obj list" where
  "leaf_elements C gs el =
     (if tagName el = ''circle'' then
        (let r = getNum C el ''r'' 0;
             d = r * 2;
             x' = getNum C el ''x'' 0 + getNum C el ''cx'' 0 - r;
             y' = getNum C el ''y'' 0 + getNum C el ''cy'' 0 - r;
             result = mat4_multiply (getTransformMatrix C el gs)
                        (mat4_fromValues [d, 0, 0, 0, 0, d, 0, 0, 0, 0, 1, 0, x', y', 0, 1])
         in [createExEllipse C ++ presAttrs C el gs ++
             [''x'' \<mapsto> Num (result 12), ''y'' \<mapsto> Num (result 13),
              ''width'' \<mapsto> Num (result 0), ''height'' \<mapsto> Num (result 5),
              ''groupIds'' \<mapsto> Strings (map group_id gs)]])
      else if tagName el = ''ellipse'' then
        (let rx = getNum C el ''rx'' 0;
             ry = getNum C el ''ry'' 0;
             x' = getNum C el ''x'' 0 + getNum C el ''cx'' 0 - rx;
             y' = getNum C el ''y'' 0 + getNum C el ''cy'' 0 - ry;
             result = mat4_multiply (getTransformMatrix C el gs)
                        (mat4_fromValues [rx * 2, 0, 0, 0, 0, ry * 2, 0, 0, 0, 0, 1, 0, x', y', 0, 1])
         in [createExEllipse C ++ presAttrs C el gs ++
             [''x'' \<mapsto> Num (result 12), ''y'' \<mapsto> Num (result 13),
              ''width'' \<mapsto> Num (result 0), ''height'' \<mapsto> Num (result 5),
              ''groupIds'' \<mapsto> Strings (map group_id gs)]])
      else if tagName el = ''rect'' then
        (let result = mat4_multiply (getTransformMatrix C el gs)
                        (mat4_fromValues
                           [getNum C el ''width'' 0, 0, 0, 0, 0, getNum C el ''height'' 0, 0, 0, 0, 0, 1, 0,
                            getNum C el ''x'' 0, getNum C el ''y'' 0, 0, 1])
         in [createExRect C ++ presAttrs C el gs ++
             [''x'' \<mapsto> Num (result 12), ''y'' \<mapsto> Num (result 13),
              ''width'' \<mapsto> Num (result 0), ''height'' \<mapsto> Num (result 5),
              ''strokeSharpness'' \<mapsto>
                 Str (if hasAttribute el ''rx'' \<or> hasAttribute el ''ry'' then ''round'' else ''sharp'')]])
      else if tagName el = ''polyline'' then [createExLine C ++ getGroupAttrs C gs]
      else if tagName el = ''path'' then
        map (\<lambda>exp.
               obj_of_RawElement
                 (exp\<lparr>points := map (\<lambda>p. vec3_transformMat4 p (getTransformMatrix C el gs)) (points exp)\<rparr>)
               ++ presAttrs C el gs)
            (calculateElementsPositions (path_convert C el))
      else [])"

text \<open>
  Siblings of which every supported one is such a shape, without a supported node below
  it.
\<close>

definition flat :: "node list \<Rightarrow> bool" where
  "flat cs =
     list_all (\<lambda>c. supported c \<longrightarrow>
                      tagName (element c) \<in> set leaf_shapes \<and> first_accepted (childNodes c) = None) cs"

section \<open>Sample collaborators and documents\<close>

text \<open>
  Collaborators in the way the spec describes them: neutral defaults for the element
  factories, attribute mappers that return style fields only, the identity transform, a
  group identified by the \<open>id\<close> attribute of its element, and a path parser that
  knows one path made of two sub-shapes.
\<close>

definition mat4_identity :: mat4 where
  "mat4_identity = mat4_fromValues [1, 0, 0, 0, 0, 1, 0, 0, 0, 0, 1, 0, 0, 0, 0, 1]"

definition sample_collab :: collab where
  "sample_collab =
     \<lparr> newGroup = (\<lambda>el. \<lparr>group_id = or_empty (getAttribute el ''id''), group_element = el\<rparr>),
       getGroupAttrs = (\<lambda>gs. Map.empty),
       presAttrsToElementValues =
         (\<lambda>el. case getAttribute el ''fill'' of
                 None \<Rightarrow> Map.empty
               | Some c \<Rightarrow> [''backgroundColor'' \<mapsto> Str c]),
       filterAttrsToElementValues = (\<lambda>el. Map.empty),
       getNum = (\<lambda>el name d.
                  if getAttribute el name = Some ''5'' then 5
                  else if getAttribute el name = Some ''10'' then 10
                  else d),
       getTransformMatrix = (\<lambda>el gs. mat4_identity),
       createExRect = [''type'' \<mapsto> Str ''rectangle'', ''groupIds'' \<mapsto> Strings []],
       createExEllipse = [''type'' \<mapsto> Str ''ellipse'', ''groupIds'' \<mapsto> Strings []],
       createExLine = [''type'' \<mapsto> Str ''line'', ''groupIds'' \<mapsto> Strings []],
       path_convert =
         (\<lambda>el. if getAttribute el ''d'' = Some ''M0 0L5 5M5 0L10 5''
               then [\<lparr>type = ''line'', x = 0, y = 0, width = 5, height = 5, points = [(0, 0), (5, 5)]\<rparr>,
                     \<lparr>type = ''line'', x = 5, y = 0, width = 5, height = 5, points = [(5, 0), (10, 5)]\<rparr>]
               else []) \<rparr>"

text \<open>The arguments of a walk that starts on an empty scene, outside every group.\<close>

definition start :: "Document \<Rightarrow> TreeWalker \<Rightarrow> WalkerArgs" where
  "start r t = \<lparr>root = r, tw = t, scene = new_ExcalidrawScene, groups = []\<rparr>"

text \<open>
  The parsed document: the document node above the root element. A conversion starts
  with a walker on the document node and walks from the first node it accepts.
\<close>

definition document :: "node \<Rightarrow> node" where
  "document svg = Node (Element ''#document'' []) [svg]"

text \<open>The value of one property in each element of a scene.\<close>

definition props :: "string \<Rightarrow> ExcalidrawScene \<Rightarrow> jsvalue option list" where
  "props k sc = map (\<lambda>e. e k) (elements sc)"

text \<open>
  \<open><svg><g id="A"><circle cx="10" cy="10" r="5"/><rect x="5" width="10" height="5"/></g></svg>\<close>
\<close>

definition svg_group :: node where
  "svg_group =
     Node (Element ''svg'' [])
       [Node (Element ''g'' [(''id'', ''A'')])
          [Node (Element ''circle'' [(''cx'', ''10''), (''cy'', ''10''), (''r'', ''5'')]) [],
           Node (Element ''rect'' [(''x'', ''5''), (''width'', ''10''), (''height'', ''5'')]) []]]"

text \<open>Three \<open>use\<close> elements: \<open><use href="#p"/>\<close>, \<open><use href="#e"/>\<close>, \<open><use href="#missing"/>\<close>.\<close>

definition use_path :: node where
  "use_path = Node (Element ''use'' [(''href'', ''#p'')]) []"

definition use_empty :: node where
  "use_empty = Node (Element ''use'' [(''href'', ''#e'')]) []"

definition use_missing :: node where
  "use_missing = Node (Element ''use'' [(''href'', ''#missing'')]) []"

text \<open>\<open><svg><rect width="10" height="5"/><use href="#missing"/><circle r="5"/></svg>\<close>\<close>

definition svg_missing :: node where
  "svg_missing =
     Node (Element ''svg'' [])
       [Node (Element ''rect'' [(''width'', ''10''), (''height'', ''5'')]) [],
        use_missing,
        Node (Element ''circle'' [(''r'', ''5'')]) []]"

text \<open>
  \<open><svg><defs><path id="p" d="M0 0L5 5M5 0L10 5"/><g id="e"/></defs>
  <use href="#p"/><rect width="10" height="5"/></svg>\<close>, and the elements that its
  references find.
\<close>

definition path_def :: node where
  "path_def = Node (Element ''path'' [(''id'', ''p''), (''d'', ''M0 0L5 5M5 0L10 5'')]) []"

definition empty_def :: node where
  "empty_def = Node (Element ''g'' [(''id'', ''e'')]) []"

definition svg_use :: node where
  "svg_use =
     Node (Element ''svg'' [])
       [Node (Element ''defs'' []) [path_def, empty_def],
        use_path,
        Node (Element ''rect'' [(''width'', ''10''), (''height'', ''5'')]) []]"

definition use_root :: Document where
  "use_root sel = (if sel = ''#p'' then Some path_def else if sel = ''#e'' then Some empty_def else None)"

text \<open>\<open><svg><text x="5">hello</text><rect width="10" height="5"/><title/></svg>\<close>\<close>

definition svg_text :: node where
  "svg_text =
     Node (Element ''svg'' [])
       [Node (Element ''text'' [(''x'', ''5'')]) [Node (Element ''#text'' []) []],
        Node (Element ''rect'' [(''width'', ''10''), (''height'', ''5'')]) [],
        Node (Element ''title'' []) []]"

text \<open>The scene of an outcome that returned, and the error and scene of one that threw.\<close>

definition returned :: "outcome option \<Rightarrow> ExcalidrawScene option" where
  "returned r = (case r of Some (Returned sc) \<Rightarrow> Some sc | _ \<Rightarrow> None)"

definition thrown :: "outcome option \<Rightarrow> (error \<times> ExcalidrawScene) option" where
  "thrown r = (case r of Some (Thrown e sc) \<Rightarrow> Some (e, sc) | _ \<Rightarrow> None)"

text \<open>The last sample document without its \<open>defs\<close>, and a group around the unresolvable reference.\<close>

definition svg_use_plain :: node where
  "svg_use_plain =
     Node (Element ''svg'' [])
       [use_path, Node (Element ''rect'' [(''width'', ''10''), (''height'', ''5'')]) []]"

definition group_missing :: node where
  "group_missing = Node (Element ''g'' [(''id'', ''A'')]) [use_missing]"





section \<open>Curve flattening: what \<open>curveToPoints\<close> returns\<close>

lemma Array_from_total:
  "(\<And>i. i \<in> set is \<Longrightarrow> f i = Inr (g i)) \<Longrightarrow> Array_from f is = Inr (map g is)"
  by (induction "is") auto

text \<open>The sampling parameter of index \<open>k\<close>, with the clamp at 100 written as a minimum.\<close>

lemma section_eq:
  "0 < nbPoints \<Longrightarrow>
   safeNumber (Fin (((100 / real_of_int (if nbPoints > 100 then 100 else nbPoints)) * (real k + 1)) / 100))
     = (real k + 1) / real (nat (min nbPoints 100))"
proof -
  have "100 * a / (b * 100) = a / b" for a b :: real
    by simp
  then have "(100 * real k + 100) / (b * 100) = (real k + 1) / b" for b :: real
    by (metis distrib_left mult.right_neutral)
  then show ?thesis if "0 < nbPoints"
    using that by (simp add: min_def)
qed

lemma clamp_eq: "nat (if nbPoints > 100 then 100 else nbPoints) = nat (min nbPoints (100::int))"
  by (simp add: min_def)

lemma cubic_point:
  "getPointOfCubicCurve (P0 # P1 # P2 # P3 # rest) t = Inr (spec_cubic P0 P1 P2 P3 t)"
  by (simp add: getPointOfCubicCurve_def spec_cubic_def coord_def Let_def algebra_simps)

lemma quadratic_point:
  "getPointOfQuadraticCurve (P0 # P1 # P2 # rest) t = Inr (spec_quadratic P0 P1 P2 t)"
  by (simp add: getPointOfQuadraticCurve_def spec_quadratic_def coord_def Let_def algebra_simps)

lemma curveToPoints_cubic:
  assumes "0 < nbPoints"
  shows "curveToPoints ''cubic'' (P0 # P1 # P2 # P3 # rest) nbPoints =
     Inr (map (\<lambda>k. spec_cubic P0 P1 P2 P3 ((real k + 1) / real (nat (min nbPoints 100))))
           [0..<nat (min nbPoints 100)])"
proof -
  have "curveToPoints ''cubic'' (P0 # P1 # P2 # P3 # rest) nbPoints =
      Array_from (\<lambda>index. Inr (spec_cubic P0 P1 P2 P3 ((real index + 1) / real (nat (min nbPoints 100)))))
        [0..<nat (min nbPoints 100)]"
    using assms
    by (simp only: curveToPoints_def Let_def section_eq clamp_eq cubic_point) simp
  then show ?thesis
    by (simp add: Array_from_total)
qed

lemma curveToPoints_quadratic:
  assumes "0 < nbPoints"
  shows "curveToPoints ''quadratic'' (P0 # P1 # P2 # rest) nbPoints =
     Inr (map (\<lambda>k. spec_quadratic P0 P1 P2 ((real k + 1) / real (nat (min nbPoints 100))))
           [0..<nat (min nbPoints 100)])"
proof -
  have "curveToPoints ''quadratic'' (P0 # P1 # P2 # rest) nbPoints =
      Array_from (\<lambda>index. Inr (spec_quadratic P0 P1 P2 ((real index + 1) / real (nat (min nbPoints 100)))))
        [0..<nat (min nbPoints 100)]"
    using assms
    by (simp only: curveToPoints_def Let_def section_eq clamp_eq quadratic_point) simp
  then show ?thesis
    by (simp add: Array_from_total)
qed

lemma curveToPoints_nonpositive:
  "nbPoints \<le> 0 \<Longrightarrow> curveToPoints ty cps nbPoints = Inl InvalidSampleCount"
  by (simp add: curveToPoints_def)

lemma long_enough4: "4 \<le> length cps \<Longrightarrow> \<exists>P0 P1 P2 P3 rest. cps = P0 # P1 # P2 # P3 # rest"
  by (cases cps rule: list.exhaust; simp; rename_tac a as; case_tac as; simp;
      rename_tac b bs; case_tac bs; simp; rename_tac c cs; case_tac cs; simp)

lemma long_enough3: "3 \<le> length cps \<Longrightarrow> \<exists>P0 P1 P2 rest. cps = P0 # P1 # P2 # rest"
  by (cases cps rule: list.exhaust; simp; rename_tac a as; case_tac as; simp;
      rename_tac b bs; case_tac bs; simp)

text \<open>
  Claim C2, as the spec states it, fails: "for every curve type and control-point list,
  a positive sample count returns a list of \<open>min(max(n,1),100)\<close> points". A cubic
  request with only three control points throws the runtime's \<open>TypeError\<close> on the
  first sample, and returns no list.
\<close>

theorem curveToPoints_short_control_list:
  "curveToPoints ''cubic'' [(0, 0), (5, 10), (10, 0)] 1 = Inl TypeError"
  by (simp add: curveToPoints_def getPointOfCubicCurve_def)

text \<open>
  Claim C2, amended: a cubic request with at least four control points, or a quadratic
  request with at least three, and a sample count \<open>n > 0\<close> returns a list of exactly
  \<open>min(max(n,1),100)\<close> points; a sample count \<open>n \<le> 0\<close> raises
  \<open>InvalidSampleCount\<close> whatever the curve type and the control points are.
\<close>

theorem curveToPoints_count:
  "(nbPoints \<le> 0 \<longrightarrow> curveToPoints ty cps nbPoints = Inl InvalidSampleCount) \<and>
   (0 < nbPoints \<and> (ty = ''cubic'' \<and> 4 \<le> length cps \<or> ty = ''quadratic'' \<and> 3 \<le> length cps) \<longrightarrow>
      (\<exists>ps. curveToPoints ty cps nbPoints = Inr ps \<and> int (length ps) = min (max nbPoints 1) 100))"
proof (intro conjI impI)
  assume "nbPoints \<le> 0"
  then show "curveToPoints ty cps nbPoints = Inl InvalidSampleCount"
    by (rule curveToPoints_nonpositive)
next
  assume a: "0 < nbPoints \<and> (ty = ''cubic'' \<and> 4 \<le> length cps \<or> ty = ''quadratic'' \<and> 3 \<le> length cps)"
  then have pos: "0 < nbPoints" by simp
  have len: "int (nat (min nbPoints 100)) = min (max nbPoints 1) 100"
    using pos by simp
  from a consider (cubic) "ty = ''cubic''" "4 \<le> length cps" | (quadratic) "ty = ''quadratic''" "3 \<le> length cps"
    by blast
  then show "\<exists>ps. curveToPoints ty cps nbPoints = Inr ps \<and> int (length ps) = min (max nbPoints 1) 100"
  proof cases
    case cubic
    then obtain P0 P1 P2 P3 rest where "cps = P0 # P1 # P2 # P3 # rest"
      using long_enough4 by blast
    with cubic pos len show ?thesis
      by (simp add: curveToPoints_cubic)
  next
    case quadratic
    then obtain P0 P1 P2 rest where "cps = P0 # P1 # P2 # rest"
      using long_enough3 by blast
    with quadratic pos len show ?thesis
      by (simp add: curveToPoints_quadratic)
  qed
qed

theorem curveToPoints_count_witness:
  "curveToPoints ''quadratic'' [(0, 0), (5, 10), (10, 0)] 0 = Inl InvalidSampleCount \<and>
   (\<exists>ps. curveToPoints ''cubic'' [(0, 0), (0, 10), (10, 10), (10, 0)] 250 = Inr ps \<and> int (length ps) = 100)"
  using curveToPoints_count [of 0 "''quadratic''" "[(0, 0), (5, 10), (10, 0)]"]
    curveToPoints_count [of 250 "''cubic''" "[(0, 0), (0, 10), (10, 10), (10, 0)]"]
  by simp

text \<open>
  Claim C3: a valid call with a positive sample count returns, for the effective count
  \<open>n\<close> (the request clamped to at most 100), the list whose \<open>k\<close>-th entry
  (\<open>k = 0 .. n-1\<close>) is the spec's evaluation formula at \<open>t = (k+1)/n\<close>: the cubic
  one for four control points, the quadratic one for three. Every parameter is positive,
  so the sample at \<open>t = 0\<close> (the starting control point) is not part of the list. The
  cubic \<open>[[0,0],[0,10],[10,10],[10,0]]\<close> at \<open>n = 1\<close> yields the single point
  \<open>[10,0]\<close>.
\<close>

theorem curveToPoints_samples:
  assumes "0 < nbPoints"
  shows "curveToPoints ''cubic'' [P0, P1, P2, P3] nbPoints =
           Inr (map (\<lambda>k. spec_cubic P0 P1 P2 P3 ((real k + 1) / real (nat (min nbPoints 100))))
                  [0..<nat (min nbPoints 100)]) \<and>
         curveToPoints ''quadratic'' [P0, P1, P2] nbPoints =
           Inr (map (\<lambda>k. spec_quadratic P0 P1 P2 ((real k + 1) / real (nat (min nbPoints 100))))
                  [0..<nat (min nbPoints 100)]) \<and>
         (\<forall>k < nat (min nbPoints 100). 0 < (real k + 1) / real (nat (min nbPoints 100))) \<and>
         curveToPoints ''cubic'' [(0, 0), (0, 10), (10, 10), (10, 0)] 1 = Inr [(10, 0)]"
proof (intro conjI)
  show "curveToPoints ''cubic'' [P0, P1, P2, P3] nbPoints =
           Inr (map (\<lambda>k. spec_cubic P0 P1 P2 P3 ((real k + 1) / real (nat (min nbPoints 100))))
                  [0..<nat (min nbPoints 100)])"
    using assms by (rule curveToPoints_cubic)
  show "curveToPoints ''quadratic'' [P0, P1, P2] nbPoints =
           Inr (map (\<lambda>k. spec_quadratic P0 P1 P2 ((real k + 1) / real (nat (min nbPoints 100))))
                  [0..<nat (min nbPoints 100)])"
    using assms by (rule curveToPoints_quadratic)
  show "\<forall>k < nat (min nbPoints 100). 0 < (real k + 1) / real (nat (min nbPoints 100))"
    using assms by (auto intro!: divide_pos_pos)
  show "curveToPoints ''cubic'' [(0, 0), (0, 10), (10, 10), (10, 0)] 1 = Inr [(10, 0)]"
    by (simp add: curveToPoints_cubic spec_cubic_def)
qed

theorem curveToPoints_samples_witness:
  "curveToPoints ''quadratic'' [(0, 0), (5, 10), (10, 0)] 2 = Inr [(5, 5), (10, 0)] \<and>
   curveToPoints ''cubic'' [(0, 0), (0, 10), (10, 10), (10, 0)] 2 = Inr [(5, 15 / 2), (10, 0)]"
  using curveToPoints_samples [of 2 "(0, 0)" "(5, 10)" "(10, 0)" "(10, 0)"]
    curveToPoints_samples [of 2 "(0, 0)" "(0, 10)" "(10, 10)" "(10, 0)"]
  by (simp add: spec_quadratic_def spec_cubic_def numeral_2_eq_2 numeral_3_eq_3 power2_eq_square)

section \<open>Position normalizer: what \<open>calculateElementsPositions\<close> returns\<close>

lemma foldl_minPoint_Fin:
  "foldl minPoint_reducer (Fin a, Fin b) es =
     (Fin (fold min (map x es) a), Fin (fold min (map y es) b))"
  by (induction es arbitrary: a b) (auto simp: minPoint_reducer_def Let_def min_def)

lemma foldl_minPoint:
  assumes "es \<noteq> []"
  shows "foldl minPoint_reducer (PosInfinity, PosInfinity) es =
           (Fin (Min (x ` set es)), Fin (Min (y ` set es)))"
proof -
  from assms obtain e es' where es: "es = e # es'" by (cases es) auto
  have "Min (x ` set es) = fold min (map x es') (x e)" "Min (y ` set es) = fold min (map y es') (y e)"
    unfolding es by (simp_all flip: Min.set_eq_fold)
  then show ?thesis
    by (simp add: es minPoint_reducer_def foldl_minPoint_Fin)
qed

lemma calculateElementsPositions_eq:
  assumes "es \<noteq> []"
  shows "calculateElementsPositions es =
     map (\<lambda>e. e\<lparr>points := map (\<lambda>(pX, pY). (pX - x e, pY - y e)) (points e),
                x := x e - Min (x ` set es), y := y e - Min (y ` set es)\<rparr>) es"
  by (simp add: calculateElementsPositions_def foldl_minPoint[OF assms] Let_def case_prod_beta)

lemma Min_shift:
  fixes f :: "'a \<Rightarrow> real"
  assumes "es \<noteq> []"
  shows "Min ((\<lambda>e. f e - Min (f ` set es)) ` set es) = 0"
proof -
  have "set es \<noteq> {}" using assms by simp
  then have "Min ((\<lambda>e. f e + (- Min (f ` set es))) ` set es) = Min (f ` set es) + (- Min (f ` set es))"
    by (intro Min_add_commute) simp_all
  then show ?thesis by simp
qed

text \<open>
  Claim C4, as the spec states it, fails: "re-running the normalizer on an already
  normalized batch returns the same batch, every entry of every points list included".
  The batch below has minimum x and y equal to 0, and the second run still moves the
  point \<open>[1,1]\<close> of the element at \<open>x = 5\<close> to \<open>[-4,1]\<close>.
\<close>

theorem calculateElementsPositions_not_idempotent:
  "shifted_batch \<noteq> [] \<and>
   Min (x ` set shifted_batch) = 0 \<and> Min (y ` set shifted_batch) = 0 \<and>
   points (shifted_batch ! 1) = [(1, 1)] \<and>
   points (calculateElementsPositions shifted_batch ! 1) = [(-4, 1)] \<and>
   calculateElementsPositions shifted_batch \<noteq> shifted_batch"
  by (simp add: calculateElementsPositions_def shifted_batch_def minPoint_reducer_def)

text \<open>
  Claim C4, amended: on a batch whose minimum x and minimum y are both 0 the
  normalizer returns a batch in which every element keeps its x, its y and every other
  field but \<open>points\<close>, and each point \<open>[pX, pY]\<close> is moved to
  \<open>[pX - x, pY - y]\<close> by the element's own \<open>x, y\<close>. So the batch comes back
  unchanged when each of its elements sits at \<open>x = 0, y = 0\<close> or has no points.
\<close>

theorem calculateElementsPositions_again:
  fixes elements :: "'a RawElement_scheme list"
  assumes "elements \<noteq> []" and "Min (x ` set elements) = 0" and "Min (y ` set elements) = 0"
  shows "calculateElementsPositions elements =
           map (\<lambda>e. e\<lparr>points := map (\<lambda>(pX, pY). (pX - x e, pY - y e)) (points e)\<rparr>) elements \<and>
         ((\<forall>e \<in> set elements. points e = [] \<or> (x e = 0 \<and> y e = 0)) \<longrightarrow>
            calculateElementsPositions elements = elements)"
proof -
  have eq: "calculateElementsPositions elements =
           map (\<lambda>e. e\<lparr>points := map (\<lambda>(pX, pY). (pX - x e, pY - y e)) (points e)\<rparr>) elements"
    using assms by (simp add: calculateElementsPositions_eq)
  have "map (\<lambda>e. e\<lparr>points := map (\<lambda>(pX, pY). (pX - x e, pY - y e)) (points e)\<rparr>) elements = elements"
    if "\<forall>e \<in> set elements. points e = [] \<or> (x e = 0 \<and> y e = 0)"
    using that by (intro map_idI) auto
  with eq show ?thesis by simp
qed

theorem calculateElementsPositions_again_witness:
  "calculateElementsPositions shifted_batch =
     [\<lparr>type = ''line'', x = 0, y = 0, width = 1, height = 1, points = [(0, 0)]\<rparr>,
      \<lparr>type = ''line'', x = 5, y = 0, width = 1, height = 1, points = [(-4, 1)]\<rparr>] \<and>
   calculateElementsPositions [hd shifted_batch] = [hd shifted_batch]"
  using calculateElementsPositions_again [of shifted_batch]
    calculateElementsPositions_again [of "[hd shifted_batch]"]
  by (simp add: shifted_batch_def)

text \<open>
  Claim C5: on a non-empty batch the normalizer returns a batch of the same length; each
  output element has the input's x minus the minimum x of the batch and the input's y
  minus the minimum y, so the minimum x and y of the output are 0; each point
  \<open>[pX, pY]\<close> of an element becomes \<open>[pX - x, pY - y]\<close> for the element's own
  original \<open>x, y\<close>; every other field is the input's.
\<close>

theorem calculateElementsPositions_rebase:
  fixes elements :: "'a RawElement_scheme list"
  assumes "elements \<noteq> []"
  shows "length (calculateElementsPositions elements) = length elements \<and>
         calculateElementsPositions elements =
           map (\<lambda>e. e\<lparr>x := x e - Min (x ` set elements),
                      y := y e - Min (y ` set elements),
                      points := map (\<lambda>(pX, pY). (pX - x e, pY - y e)) (points e)\<rparr>) elements \<and>
         Min (x ` set (calculateElementsPositions elements)) = 0 \<and>
         Min (y ` set (calculateElementsPositions elements)) = 0"
proof -
  have eq: "calculateElementsPositions elements =
           map (\<lambda>e. e\<lparr>x := x e - Min (x ` set elements),
                      y := y e - Min (y ` set elements),
                      points := map (\<lambda>(pX, pY). (pX - x e, pY - y e)) (points e)\<rparr>) elements"
    by (simp add: calculateElementsPositions_eq[OF assms])
  have "x ` set (calculateElementsPositions elements) = (\<lambda>e. x e - Min (x ` set elements)) ` set elements"
    unfolding eq by (simp add: image_image)
  then have mx: "Min (x ` set (calculateElementsPositions elements)) = 0"
    using Min_shift[OF assms, of x] by simp
  have "y ` set (calculateElementsPositions elements) = (\<lambda>e. y e - Min (y ` set elements)) ` set elements"
    unfolding eq by (simp add: image_image)
  then have my: "Min (y ` set (calculateElementsPositions elements)) = 0"
    using Min_shift[OF assms, of y] by simp
  show ?thesis using eq mx my by simp
qed

theorem calculateElementsPositions_rebase_witness:
  "raw_batch \<noteq> [] \<and>
   calculateElementsPositions raw_batch =
     [\<lparr>type = ''line'', x = 5, y = 0, width = 1, height = 1, points = [(1, 2)]\<rparr>,
      \<lparr>type = ''line'', x = 0, y = 1, width = 1, height = 1, points = [(0, 0), (1, 2)]\<rparr>] \<and>
   Min (x ` set (calculateElementsPositions raw_batch)) = 0 \<and>
   Min (y ` set (calculateElementsPositions raw_batch)) = 0"
  using calculateElementsPositions_rebase [of raw_batch]
  by (simp add: raw_batch_def)

section \<open>Sample data, evaluated\<close>

lemmas dom_eval =
  getAttribute_def hasAttribute_def setAttribute_def cloneNode_def truthy_def js_or_def or_empty_def
  SUPPORTED_TAGS_def nodeValidator_def createTreeWalker_def nextNode_def nextSibling_def
  skippedUseAttrs_def allwaysPassedUseAttrs_def getDefElWithCorrectAttrs_def

lemmas walk_eval =
  dom_eval new_ExcalidrawScene_def push_def pop_def presAttrs_def walk_nextNode_def
  walkers_svg_def walkers_g_def walkers_use_def walkers_circle_def walkers_ellipse_def
  walkers_line_def walkers_polygon_def walkers_polyline_def walkers_rect_def
  start_def props_def document_def Let_def

lemmas sample_eval =
  svg_group_def svg_missing_def svg_use_def use_path_def use_empty_def use_missing_def
  path_def_def empty_def_def use_root_def

lemma vec3_transformMat4_identity: "vec3_transformMat4 p mat4_identity = p"
  by (simp add: vec3_transformMat4_def mat4_identity_def mat4_fromValues_def Let_def)

text \<open>The path of the sample document, walked by itself: two elements.\<close>

lemma sample_path_elements:
  "walkers_path w sample_collab a =
     walk_nextNode w (a\<lparr>scene := (scene a)\<lparr>elements := elements (scene a) @ es\<rparr>\<rparr>)"
  if "element (currentNode (tw a)) = Element ''path'' [(''id'', ''p''), (''d'', ''M0 0L5 5M5 0L10 5''), (''href'', ''#p'')]"
    and "es = [obj_of_RawElement \<lparr>type = ''line'', x = 0, y = 0, width = 5, height = 5, points = [(0, 0), (5, 5)]\<rparr>,
               obj_of_RawElement \<lparr>type = ''line'', x = 5, y = 0, width = 5, height = 5, points = [(0, 0), (5, 5)]\<rparr>]"
  using that
  by (simp add: walkers_path_def Let_def sample_collab_def getAttribute_def presAttrs_def
        calculateElementsPositions_def minPoint_reducer_def vec3_transformMat4_identity)


section \<open>More fuel never changes an outcome\<close>

lemma extends_fnD: "extends_fn w w' \<Longrightarrow> w a n = Some r \<Longrightarrow> w' a n = Some r"
  by (simp add: extends_fn_def)

lemma walk_nextNode_extends:
  "extends_fn w w' \<Longrightarrow> walk_nextNode w a = Some r \<Longrightarrow> walk_nextNode w' a = Some r"
  by (auto simp: walk_nextNode_def split: prod.splits dest: extends_fnD)

lemma walkers_g_extends:
  assumes "extends_fn w w'" and "walkers_g w C a = Some r"
  shows "walkers_g w' C a = Some r"
  using assms(2)
  by (auto simp: walkers_g_def Let_def walk_nextNode_extends[OF assms(1)] extends_fnD[OF assms(1)]
        split: option.splits outcome.splits prod.splits)

lemma walkers_use_extends:
  assumes "extends_fn w w'" and "walkers_use w C a = Some r"
  shows "walkers_use w' C a = Some r"
  using assms(2)
  by (auto simp: walkers_use_def Let_def walk_nextNode_extends[OF assms(1)] extends_fnD[OF assms(1)]
        split: option.splits outcome.splits prod.splits if_splits)

lemma walkers_leaf_extends:
  assumes "extends_fn w w'"
  shows "walkers_svg w C a = Some r \<Longrightarrow> walkers_svg w' C a = Some r"
    and "walkers_line w C a = Some r \<Longrightarrow> walkers_line w' C a = Some r"
    and "walkers_polygon w C a = Some r \<Longrightarrow> walkers_polygon w' C a = Some r"
    and "walkers_circle w C a = Some r \<Longrightarrow> walkers_circle w' C a = Some r"
    and "walkers_ellipse w C a = Some r \<Longrightarrow> walkers_ellipse w' C a = Some r"
    and "walkers_polyline w C a = Some r \<Longrightarrow> walkers_polyline w' C a = Some r"
    and "walkers_rect w C a = Some r \<Longrightarrow> walkers_rect w' C a = Some r"
    and "walkers_path w C a = Some r \<Longrightarrow> walkers_path w' C a = Some r"
  unfolding walkers_svg_def walkers_line_def walkers_polygon_def walkers_circle_def walkers_ellipse_def
    walkers_polyline_def walkers_rect_def walkers_path_def Let_def
  by (rule walk_nextNode_extends[OF assms], assumption)+

lemma walk_more_fuel: "walk fuel C a n = Some r \<Longrightarrow> walk (Suc fuel) C a n = Some r"
proof (induction fuel arbitrary: a n r)
  case 0
  then show ?case by (cases n) simp_all
next
  case (Suc fuel)
  have ext: "extends_fn (walk fuel C) (walk (Suc fuel) C)"
    unfolding extends_fn_def using Suc.IH by blast
  show ?case
  proof (cases n)
    case None
    with Suc.prems show ?thesis by simp
  next
    case (Some m)
    have "walk (Suc fuel) C a (Some m) = Some r"
      using Suc.prems Some by simp
    then show ?thesis
      unfolding Some walk.simps(3)[of "Suc fuel"] walk.simps(3)[of fuel] Let_def
      by (auto split: if_splits
            intro: walkers_g_extends[OF ext] walkers_use_extends[OF ext] walkers_leaf_extends[OF ext]
            simp del: walk.simps)
  qed
qed

lemma walk_fuel_mono: "fuel \<le> fuel' \<Longrightarrow> walk fuel C a n = Some r \<Longrightarrow> walk fuel' C a n = Some r"
  by (induction fuel' arbitrary: fuel) (auto simp: le_Suc_eq dest: walk_more_fuel simp del: walk.simps)

section \<open>A document without references is walked to its end\<close>

lemma weights_childNodes: "weights (childNodes n) < weight n"
  by (cases n) simp

lemma use_free_childNodes: "use_free n \<Longrightarrow> use_free_list (childNodes n)"
  by (cases n) simp

lemma use_free_tagName: "use_free n \<Longrightarrow> tagName (element n) \<noteq> ''use''"
  by (cases n) simp

lemma first_accepted_weights:
  "first_accepted ns = Some (n, rest) \<Longrightarrow> weight n + weights rest \<le> weights ns"
  by (induction ns) (auto split: if_splits)

lemma first_accepted_use_free:
  "first_accepted ns = Some (n, rest) \<Longrightarrow> use_free_list ns \<Longrightarrow> use_free n \<and> use_free_list rest"
  by (induction ns) (auto split: if_splits)

lemma following_weights:
  "following ab = Some (n, ab') \<Longrightarrow>
   weight n + sum_list (map (\<lambda>(parent, siblings). weights siblings) ab')
     \<le> sum_list (map (\<lambda>(parent, siblings). weights siblings) ab)"
  by (induction ab rule: following.induct)
     (auto split: option.splits dest!: first_accepted_weights)

lemma following_use_free:
  "following ab = Some (n, ab') \<Longrightarrow> list_all (\<lambda>(parent, siblings). use_free_list siblings) ab \<Longrightarrow>
   use_free n \<and> list_all (\<lambda>(parent, siblings). use_free_list siblings) ab'"
  by (induction ab rule: following.induct)
     (auto split: option.splits dest: first_accepted_use_free)

lemma nextSibling_from_weights:
  "nextSibling_from ab = Some (n, ab') \<Longrightarrow>
   weight n + sum_list (map (\<lambda>(parent, siblings). weights siblings) ab')
     \<le> sum_list (map (\<lambda>(parent, siblings). weights siblings) ab)"
  by (induction ab rule: nextSibling_from.induct)
     (auto split: option.splits if_splits dest!: first_accepted_weights)

lemma nextSibling_from_use_free:
  "nextSibling_from ab = Some (n, ab') \<Longrightarrow> list_all (\<lambda>(parent, siblings). use_free_list siblings) ab \<Longrightarrow>
   use_free n \<and> list_all (\<lambda>(parent, siblings). use_free_list siblings) ab'"
  by (induction ab rule: nextSibling_from.induct)
     (auto split: option.splits if_splits dest: first_accepted_use_free)

lemma nextNode_moves:
  assumes "nextNode t = (t', Some n)" and "use_free_tw t"
  shows "currentNode t' = n \<and> remaining t' < remaining t \<and> use_free_tw t'"
proof (cases "first_accepted (childNodes (currentNode t))")
  case None
  with assms(1) obtain ab where f: "following (above t) = Some (n, ab)" and t': "t' = \<lparr>currentNode = n, above = ab\<rparr>"
    by (auto simp: nextNode_def split: option.splits)
  from following_weights[OF f] following_use_free[OF f] assms(2) weights_childNodes[of n]
  show ?thesis
    by (auto simp: t' remaining_def use_free_tw_def)
next
  case (Some p)
  obtain m rest where p: "p = (m, rest)" by (cases p)
  with Some assms(1) have fa: "first_accepted (childNodes (currentNode t)) = Some (n, rest)"
    and t': "t' = \<lparr>currentNode = n, above = (element (currentNode t), rest) # above t\<rparr>"
    by (auto simp: nextNode_def)
  from first_accepted_weights[OF fa] first_accepted_use_free[OF fa] assms(2) weights_childNodes[of n]
  show ?thesis
    by (auto simp: t' remaining_def use_free_tw_def dest: use_free_childNodes)
qed

lemma nextSibling_moves:
  assumes "nextSibling t = (t', Some n)" and "use_free_tw t"
  shows "currentNode t' = n \<and> remaining t' < remaining t \<and> use_free_tw t'"
proof -
  from assms(1) obtain ab where f: "nextSibling_from (above t) = Some (n, ab)" and t': "t' = \<lparr>currentNode = n, above = ab\<rparr>"
    by (auto simp: nextSibling_def split: option.splits)
  from nextSibling_from_weights[OF f] nextSibling_from_use_free[OF f] assms(2) weights_childNodes[of n]
  show ?thesis
    by (auto simp: t' remaining_def use_free_tw_def)
qed

lemma walk_nextNode_returns:
  assumes "returns (walk f C) f" and "use_free_tw (tw a)" and "remaining (tw a) \<le> f"
  shows "\<exists>sc. walk_nextNode (walk f C) a = Some (Returned sc)"
proof -
  obtain t' n where nx: "nextNode (tw a) = (t', n)" by (cases "nextNode (tw a)")
  show ?thesis
  proof (cases n)
    case None
    then show ?thesis by (simp add: walk_nextNode_def nx)
  next
    case (Some m)
    from nextNode_moves[OF nx[unfolded Some] assms(2)] assms(3)
    have "use_free_tw (tw (a\<lparr>tw := t'\<rparr>)) \<and> remaining (tw (a\<lparr>tw := t'\<rparr>)) < f" and cur: "currentNode t' = m"
      by auto
    with assms(1) obtain sc where "walk f C (a\<lparr>tw := t'\<rparr>) (Some (currentNode (tw (a\<lparr>tw := t'\<rparr>)))) = Some (Returned sc)"
      unfolding returns_def by blast
    then show ?thesis
      by (simp add: walk_nextNode_def nx Some cur del: walk.simps)
  qed
qed

lemma walkers_g_returns:
  assumes "returns (walk f C) f" and "use_free_tw (tw a)" and "remaining (tw a) \<le> f"
  shows "\<exists>sc. walkers_g (walk f C) C a = Some (Returned sc)"
proof -
  let ?next = "a\<lparr>tw := createTreeWalker (currentNode (tw a)),
                 groups := groups a @ [newGroup C (element (currentNode (tw a)))]\<rparr>"
  have "use_free_tw (tw ?next)" "remaining (tw ?next) \<le> f"
    using assms(2,3) by (simp_all add: use_free_tw_def remaining_def createTreeWalker_def)
  from walk_nextNode_returns[OF assms(1) this] obtain sc where
    sub: "walk_nextNode (walk f C) ?next = Some (Returned sc)" by blast
  obtain t' n where ns: "nextSibling (tw a) = (t', n)" by (cases "nextSibling (tw a)")
  have "\<exists>sc'. walk f C (a\<lparr>tw := t', scene := sc\<rparr>) n = Some (Returned sc')"
  proof (cases n)
    case None
    then show ?thesis by simp
  next
    case (Some m)
    from nextSibling_moves[OF ns[unfolded Some] assms(2)] assms(3)
    have "use_free_tw (tw (a\<lparr>tw := t', scene := sc\<rparr>)) \<and> remaining (tw (a\<lparr>tw := t', scene := sc\<rparr>)) < f"
      and cur: "currentNode t' = m"
      by auto
    with assms(1) obtain sc' where
      "walk f C (a\<lparr>tw := t', scene := sc\<rparr>) (Some (currentNode (tw (a\<lparr>tw := t', scene := sc\<rparr>)))) = Some (Returned sc')"
      unfolding returns_def by blast
    then show ?thesis
      by (auto simp: Some cur simp del: walk.simps)
  qed
  then show ?thesis
    by (simp add: walkers_g_def Let_def sub ns del: walk.simps)
qed


lemma walk_returns: "returns (walk f C) f"
proof (induction f)
  case 0
  show ?case by (simp add: returns_def)
next
  case (Suc f)
  show ?case
    unfolding returns_def
  proof (intro allI impI)
    fix a :: WalkerArgs
    assume "use_free_tw (tw a) \<and> remaining (tw a) < Suc f"
    then have uf: "use_free_tw (tw a)" and le: "remaining (tw a) \<le> f"
      by auto
    have no_use: "tagName (element (currentNode (tw a))) \<noteq> ''use''"
      using uf by (simp add: use_free_tw_def use_free_tagName)
    have nx: "\<exists>sc. walk_nextNode (walk f C) (a\<lparr>scene := s\<rparr>) = Some (Returned sc)" for s
      using walk_nextNode_returns[OF Suc, of "a\<lparr>scene := s\<rparr>"] uf le by simp
    have nx0: "\<exists>sc. walk_nextNode (walk f C) a = Some (Returned sc)"
      using walk_nextNode_returns[OF Suc uf le] .
    note g = walkers_g_returns[OF Suc uf le]
    show "\<exists>sc. walk (Suc f) C a (Some (currentNode (tw a))) = Some (Returned sc)"
      using no_use nx nx0 g
      by (simp add: Let_def walkers_svg_def walkers_line_def walkers_polygon_def walkers_circle_def
            walkers_ellipse_def walkers_polyline_def walkers_rect_def walkers_path_def del: walk.simps
            add: walk.simps(3))
  qed
qed

lemma document_walk_returns:
  assumes "use_free d" and "weight d \<le> fuel"
  shows "\<exists>sc. walk_nextNode (walk fuel C) (args\<lparr>tw := createTreeWalker d\<rparr>) = Some (Returned sc)"
proof -
  have "use_free_tw (tw (args\<lparr>tw := createTreeWalker d\<rparr>))"
    using assms(1) by (simp add: use_free_tw_def createTreeWalker_def)
  moreover have "remaining (tw (args\<lparr>tw := createTreeWalker d\<rparr>)) \<le> fuel"
    using assms(2) weights_childNodes[of d] by (simp add: remaining_def createTreeWalker_def)
  ultimately show ?thesis
    by (rule walk_nextNode_returns[OF walk_returns])
qed

section \<open>Unsupported nodes are invisible to the walk\<close>

lemma element_prune [simp]: "element (prune n) = element n"
  by (cases n) simp

lemma childNodes_prune [simp]: "childNodes (prune n) = prune_list (childNodes n)"
  by (cases n) simp

lemma first_accepted_prune:
  "first_accepted (prune_list ns) =
     map_option (\<lambda>(n, rest). (prune n, prune_list rest)) (first_accepted ns)"
  by (induction ns) auto

lemma following_prune:
  "following (map (\<lambda>(parent, siblings). (parent, prune_list siblings)) ab) =
     map_option (\<lambda>(n, ab'). (prune n, map (\<lambda>(parent, siblings). (parent, prune_list siblings)) ab'))
       (following ab)"
  by (induction ab rule: following.induct)
     (auto simp: first_accepted_prune split: option.splits)

lemma nextSibling_from_prune:
  "nextSibling_from (map (\<lambda>(parent, siblings). (parent, prune_list siblings)) ab) =
     map_option (\<lambda>(n, ab'). (prune n, map (\<lambda>(parent, siblings). (parent, prune_list siblings)) ab'))
       (nextSibling_from ab)"
  by (induction ab rule: nextSibling_from.induct)
     (auto simp: first_accepted_prune split: option.splits)

lemma nextNode_prune:
  "nextNode (prune_tw t) = (case nextNode t of (t', n) \<Rightarrow> (prune_tw t', map_option prune n))"
  by (auto simp: nextNode_def prune_tw_def first_accepted_prune following_prune split: option.splits)

lemma nextSibling_prune:
  "nextSibling (prune_tw t) = (case nextSibling t of (t', n) \<Rightarrow> (prune_tw t', map_option prune n))"
  by (auto simp: nextSibling_def prune_tw_def nextSibling_from_prune split: option.splits)

lemma currentNode_prune_tw [simp]: "currentNode (prune_tw t) = prune (currentNode t)"
  by (simp add: prune_tw_def)

lemma createTreeWalker_prune: "createTreeWalker (prune n) = prune_tw (createTreeWalker n)"
  by (simp add: createTreeWalker_def prune_tw_def)

lemma getDefElWithCorrectAttrs_prune [simp]:
  "getDefElWithCorrectAttrs defEl (prune useEl) = getDefElWithCorrectAttrs defEl useEl"
  by (simp only: getDefElWithCorrectAttrs_def element_prune)

lemma prune_args_sel [simp]:
  "tw (prune_args a) = prune_tw (tw a)"
  "scene (prune_args a) = scene a"
  "groups (prune_args a) = groups a"
  "root (prune_args a) = root a"
  by (simp_all add: prune_args_def)

lemma prune_args_set_tw [simp]: "(prune_args a)\<lparr>scene := sc, tw := t\<rparr> = a\<lparr>scene := sc, tw := t\<rparr>"
  by (cases a) (simp add: prune_args_def)

lemma ignores_pruningD:
  assumes "ignores_pruning w" and "a' = prune_args a"
  shows "w a' (map_option prune n) = w a n"
  using assms by (simp add: ignores_pruning_def)

lemma walk_nextNode_prune:
  assumes "ignores_pruning w" and "a' = prune_args a"
  shows "walk_nextNode w a' = walk_nextNode w a"
proof -
  obtain t' n where nx: "nextNode (tw a) = (t', n)" by (cases "nextNode (tw a)")
  have "a'\<lparr>tw := prune_tw t'\<rparr> = prune_args (a\<lparr>tw := t'\<rparr>)"
    unfolding assms(2) by (cases a) (simp add: prune_args_def)
  from ignores_pruningD[OF assms(1) this, of n] show ?thesis
    by (simp add: walk_nextNode_def assms(2) nextNode_prune nx)
qed

lemma walk_nextNode_prune_scene:
  assumes "ignores_pruning w"
  shows "walk_nextNode w ((prune_args args)\<lparr>scene := sc\<rparr>) = walk_nextNode w (args\<lparr>scene := sc\<rparr>)"
proof -
  have "(prune_args args)\<lparr>scene := sc\<rparr> = prune_args (args\<lparr>scene := sc\<rparr>)"
    by (cases args) (simp add: prune_args_def)
  from walk_nextNode_prune[OF assms this] show ?thesis .
qed

lemma walkers_g_prune:
  assumes "ignores_pruning w"
  shows "walkers_g w C (prune_args args) = walkers_g w C args"
proof -
  let ?gs = "groups args @ [newGroup C (element (currentNode (tw args)))]"
  have "(prune_args args)\<lparr>tw := createTreeWalker (prune (currentNode (tw args))), groups := ?gs\<rparr>
      = prune_args (args\<lparr>tw := createTreeWalker (currentNode (tw args)), groups := ?gs\<rparr>)"
    by (cases args) (simp add: prune_args_def createTreeWalker_prune)
  from walk_nextNode_prune[OF assms this]
  have sub: "walk_nextNode w ((prune_args args)\<lparr>tw := createTreeWalker (prune (currentNode (tw args))), groups := ?gs\<rparr>)
       = walk_nextNode w (args\<lparr>tw := createTreeWalker (currentNode (tw args)), groups := ?gs\<rparr>)" .
  obtain t' n where ns: "nextSibling (tw args) = (t', n)" by (cases "nextSibling (tw args)")
  have cont: "w ((prune_args args)\<lparr>tw := prune_tw t', scene := sc\<rparr>) (map_option prune n)
      = w (args\<lparr>tw := t', scene := sc\<rparr>) n" for sc
  proof -
    have "(prune_args args)\<lparr>tw := prune_tw t', scene := sc\<rparr> = prune_args (args\<lparr>tw := t', scene := sc\<rparr>)"
      by (cases args) (simp add: prune_args_def)
    from ignores_pruningD[OF assms this] show ?thesis .
  qed
  show ?thesis
    unfolding walkers_g_def Let_def
    by (simp add: sub nextSibling_prune ns cont split: option.splits outcome.splits)
qed

lemma walkers_use_prune:
  assumes "ignores_pruning w"
  shows "walkers_use w C (prune_args args) = walkers_use w C args"
  unfolding walkers_use_def Let_def
  by (simp add: walk_nextNode_prune_scene[OF assms] split: option.splits outcome.splits)

lemma walkers_leaf_prune:
  assumes "ignores_pruning w"
  shows "walkers_svg w C (prune_args args) = walkers_svg w C args"
    and "walkers_line w C (prune_args args) = walkers_line w C args"
    and "walkers_polygon w C (prune_args args) = walkers_polygon w C args"
    and "walkers_circle w C (prune_args args) = walkers_circle w C args"
    and "walkers_ellipse w C (prune_args args) = walkers_ellipse w C args"
    and "walkers_polyline w C (prune_args args) = walkers_polyline w C args"
    and "walkers_rect w C (prune_args args) = walkers_rect w C args"
    and "walkers_path w C (prune_args args) = walkers_path w C args"
proof -
  note sc = walk_nextNode_prune_scene[OF assms]
  note nx = walk_nextNode_prune[OF assms refl]
  show "walkers_svg w C (prune_args args) = walkers_svg w C args"
    by (simp add: walkers_svg_def nx)
  show "walkers_line w C (prune_args args) = walkers_line w C args"
    by (simp add: walkers_line_def nx)
  show "walkers_polygon w C (prune_args args) = walkers_polygon w C args"
    by (simp add: walkers_polygon_def nx)
  show "walkers_circle w C (prune_args args) = walkers_circle w C args"
    by (simp add: walkers_circle_def Let_def sc)
  show "walkers_ellipse w C (prune_args args) = walkers_ellipse w C args"
    by (simp add: walkers_ellipse_def Let_def sc)
  show "walkers_polyline w C (prune_args args) = walkers_polyline w C args"
    by (simp add: walkers_polyline_def Let_def sc)
  show "walkers_rect w C (prune_args args) = walkers_rect w C args"
    by (simp add: walkers_rect_def Let_def sc)
  show "walkers_path w C (prune_args args) = walkers_path w C args"
    by (simp add: walkers_path_def Let_def sc)
qed

lemma walk_prune:
  "walk fuel C (prune_args args) (map_option prune node) = walk fuel C args node"
proof (induction fuel arbitrary: args node)
  case 0
  then show ?case by (cases node) simp_all
next
  case (Suc fuel)
  show ?case
  proof (cases node)
    case None
    then show ?thesis by simp
  next
    case (Some n)
    have IH: "ignores_pruning (walk fuel C)"
      using Suc.IH by (simp add: ignores_pruning_def)
    show ?thesis
      unfolding Some
      by (simp add: Let_def walkers_g_prune[OF IH] walkers_use_prune[OF IH] walkers_leaf_prune[OF IH])
  qed
qed

lemma walk_ignores_pruning: "ignores_pruning (walk fuel C)"
  by (simp add: ignores_pruning_def walk_prune)

lemma prune_list_append: "prune_list (ns @ ms) = prune_list ns @ prune_list ms"
  by (induction ns) auto

lemma first_accepted_supported:
  "first_accepted ns = Some (n, rest) \<Longrightarrow> tagName (element n) \<in> set SUPPORTED_TAGS"
  by (induction ns) (auto simp: nodeValidator_def split: if_splits)

lemma following_supported:
  "following ab = Some (n, ab') \<Longrightarrow> tagName (element n) \<in> set SUPPORTED_TAGS"
  by (induction ab rule: following.induct)
     (auto dest: first_accepted_supported split: option.splits)

lemma nextSibling_from_supported:
  "nextSibling_from ab = Some (n, ab') \<Longrightarrow> tagName (element n) \<in> set SUPPORTED_TAGS"
  by (induction ab rule: nextSibling_from.induct)
     (auto dest: first_accepted_supported split: option.splits if_splits)

lemma nextNode_supported:
  "snd (nextNode t) = Some n \<Longrightarrow> tagName (element n) \<in> set SUPPORTED_TAGS"
  by (auto simp: nextNode_def dest: first_accepted_supported following_supported split: option.splits)

lemma nextSibling_supported:
  "snd (nextSibling t) = Some n \<Longrightarrow> tagName (element n) \<in> set SUPPORTED_TAGS"
  by (auto simp: nextSibling_def dest: nextSibling_from_supported split: option.splits)

subsection \<open>Stepping over unsupported nodes\<close>

lemma nodeValidator_supported: "nodeValidator (element n) = FILTER_ACCEPT \<longleftrightarrow> supported n"
  by (simp add: nodeValidator_def supported_def)

lemma first_accepted_skip:
  "list_all (\<lambda>u. \<not> supported u) us \<Longrightarrow> supported s \<Longrightarrow> first_accepted (us @ s # rest) = Some (s, rest)"
  by (induction us) (simp_all add: nodeValidator_supported)

lemma nextNode_child:
  assumes "childNodes (currentNode t) = us @ s # rest" and "list_all (\<lambda>u. \<not> supported u) us" and "supported s"
  shows "nextNode t = (\<lparr>currentNode = s, above = (element (currentNode t), rest) # above t\<rparr>, Some s)"
  by (simp add: nextNode_def assms(1) first_accepted_skip[OF assms(2,3)])

lemma nextNode_after:
  assumes "first_accepted (childNodes (currentNode t)) = None"
    and "above t = (p, us @ s # rest) # ab" and "list_all (\<lambda>u. \<not> supported u) us" and "supported s"
  shows "nextNode t = (\<lparr>currentNode = s, above = (p, rest) # ab\<rparr>, Some s)"
  by (simp add: nextNode_def assms(1,2) first_accepted_skip[OF assms(3,4)])

lemma nextSibling_after:
  assumes "above t = (p, us @ s # rest) # ab" and "list_all (\<lambda>u. \<not> supported u) us" and "supported s"
  shows "nextSibling t = (\<lparr>currentNode = s, above = (p, rest) # ab\<rparr>, Some s)"
  by (simp add: nextSibling_def assms(1) first_accepted_skip[OF assms(2,3)])

lemma walk_leaf:
  assumes "tagName (element n) \<in> set leaf_shapes" and "element (currentNode (tw a)) = element n"
  shows "walk (Suc f) C a (Some n) =
           walk_nextNode (walk f C)
             (a\<lparr>scene := (scene a)\<lparr>elements := elements (scene a) @ leaf_elements C (groups a) (element n)\<rparr>\<rparr>)"
  using assms
  by (auto simp: leaf_shapes_def leaf_elements_def walkers_circle_def walkers_ellipse_def walkers_rect_def
        walkers_polyline_def walkers_path_def push_def Let_def simp del: walk.simps simp add: walk.simps(3))

subsection \<open>The walk along the children of a node\<close>

lemma walk_nextNode_walk:
  "walk_nextNode (walk fuel C) a =
     (case nextNode (tw a) of (t, None) \<Rightarrow> Some (Returned (scene a))
        | (t, Some n) \<Rightarrow> walk fuel C (a\<lparr>tw := t\<rparr>) (Some n))"
  by (simp add: walk_nextNode_def split: prod.splits option.splits)

lemma walk_nextNode_skip:
  assumes "first_accepted (childNodes (currentNode (tw a))) = None"
    and "above (tw a) = (p, c # cs) # ab" and "\<not> supported c"
  shows "walk_nextNode (walk fuel C) a =
         walk_nextNode (walk fuel C) (a\<lparr>tw := (tw a)\<lparr>above := (p, cs) # ab\<rparr>\<rparr>)"
  using assms
  by (simp add: walk_nextNode_walk nextNode_def nodeValidator_supported split: option.splits)

lemma walk_flat_siblings:
  assumes "first_accepted (childNodes (currentNode (tw a))) = None"
    and "above (tw a) = (p, cs) # ab" and "following ab = None" and "flat cs"
    and "length (filter supported cs) \<le> fuel"
  shows "walk_nextNode (walk fuel C) a =
         Some (Returned ((scene a)\<lparr>elements := elements (scene a) @
                 concat (map (\<lambda>c. leaf_elements C (groups a) (element c)) (filter supported cs))\<rparr>))"
  using assms
proof (induction cs arbitrary: a fuel)
  case Nil
  then show ?case by (simp add: walk_nextNode_walk nextNode_def)
next
  case (Cons c cs)
  show ?case
  proof (cases "supported c")
    case False
    let ?a = "a\<lparr>tw := (tw a)\<lparr>above := (p, cs) # ab\<rparr>\<rparr>"
    have skip: "walk_nextNode (walk fuel C) a = walk_nextNode (walk fuel C) ?a"
      by (rule walk_nextNode_skip [OF Cons.prems(1,2) False])
    have "walk_nextNode (walk fuel C) ?a =
         Some (Returned ((scene ?a)\<lparr>elements := elements (scene ?a) @
                 concat (map (\<lambda>c. leaf_elements C (groups ?a) (element c)) (filter supported cs))\<rparr>))"
      using Cons.prems False by (intro Cons.IH) (simp_all add: flat_def)
    with skip False show ?thesis by simp
  next
    case True
    from True Cons.prems(4) have leaf: "tagName (element c) \<in> set leaf_shapes"
      and none: "first_accepted (childNodes c) = None" by (simp_all add: flat_def)
    from True Cons.prems(5) obtain f where fuel: "fuel = Suc f" and f: "length (filter supported cs) \<le> f"
      by (cases fuel) simp_all
    let ?t = "\<lparr>currentNode = c, above = (p, cs) # ab\<rparr>"
    let ?a1 = "a\<lparr>tw := ?t\<rparr>"
    let ?a2 = "?a1\<lparr>scene := (scene ?a1)\<lparr>elements := elements (scene ?a1) @ leaf_elements C (groups ?a1) (element c)\<rparr>\<rparr>"
    have step: "nextNode (tw a) = (?t, Some c)"
      using Cons.prems(1,2) True by (simp add: nextNode_def nodeValidator_supported)
    have one: "walk_nextNode (walk fuel C) a = walk (Suc f) C ?a1 (Some c)"
      by (simp add: walk_nextNode_walk step fuel del: walk.simps)
    have two: "walk (Suc f) C ?a1 (Some c) = walk_nextNode (walk f C) ?a2"
      by (rule walk_leaf [OF leaf]) simp
    have three: "walk_nextNode (walk f C) ?a2 =
         Some (Returned ((scene ?a2)\<lparr>elements := elements (scene ?a2) @
                 concat (map (\<lambda>c. leaf_elements C (groups ?a2) (element c)) (filter supported cs))\<rparr>))"
      using Cons.prems none f by (intro Cons.IH) (simp_all add: flat_def)
    show ?thesis unfolding one two three using True by simp
  qed
qed

lemma walk_nextNode_enter:
  "walk_nextNode (walk fuel C) a =
   walk_nextNode (walk fuel C)
     (a\<lparr>tw := \<lparr>currentNode = Node (element (currentNode (tw a))) [],
               above = (element (currentNode (tw a)), childNodes (currentNode (tw a))) # above (tw a)\<rparr>\<rparr>)"
  by (simp add: walk_nextNode_walk nextNode_def split: option.splits)

lemma walk_flat_children:
  assumes "following (above (tw a)) = None" and "flat (childNodes (currentNode (tw a)))"
    and "length (filter supported (childNodes (currentNode (tw a)))) \<le> fuel"
  shows "walk_nextNode (walk fuel C) a =
         Some (Returned ((scene a)\<lparr>elements := elements (scene a) @
                 concat (map (\<lambda>c. leaf_elements C (groups a) (element c))
                           (filter supported (childNodes (currentNode (tw a)))))\<rparr>))"
proof -
  let ?a = "a\<lparr>tw := \<lparr>currentNode = Node (element (currentNode (tw a))) [],
               above = (element (currentNode (tw a)), childNodes (currentNode (tw a))) # above (tw a)\<rparr>\<rparr>"
  have "walk_nextNode (walk fuel C) ?a =
         Some (Returned ((scene ?a)\<lparr>elements := elements (scene ?a) @
                 concat (map (\<lambda>c. leaf_elements C (groups ?a) (element c))
                           (filter supported (childNodes (currentNode (tw a)))))\<rparr>))"
    using assms by (intro walk_flat_siblings [where p = "element (currentNode (tw a))" and ab = "above (tw a)"]) simp_all
  then show ?thesis unfolding walk_nextNode_enter [of fuel C a] by simp
qed

lemma sample_rect_elements:
  "map (\<lambda>e. (e ''type'', e ''x'', e ''y'', e ''width'', e ''height''))
     (leaf_elements sample_collab [] (Element ''rect'' [(''width'', ''10''), (''height'', ''5'')]))
   = [(Some (Str ''rectangle''), Some (Num 0), Some (Num 0), Some (Num 10), Some (Num 5))]"
  by (simp add: leaf_elements_def sample_collab_def getAttribute_def hasAttribute_def presAttrs_def
        mat4_multiply_def mat4_fromValues_def mat4_identity_def Let_def)

text \<open>
  Claim C9: a node whose tag is not in the allow-list emits no element, raises no
  error and does not stop the walk. The tree walker never hands such a node to
  \<open>walk\<close>. Stepping over such nodes lands on the sibling after them: from a node whose
  first children are unsupported \<open>nextNode\<close> moves to the first supported child, and
  from a node without supported children both \<open>nextNode\<close> and \<open>nextSibling\<close> move
  to the first supported node among the following siblings, whatever stands on either
  side. Where every supported child of the current node is a shape and nothing follows
  the node, the walk returns the caller's scene with the elements of the supported
  children appended, in document order: nothing for the unsupported ones, and every
  supported one after them is still converted. For any document, a walk cannot tell it
  from the document in which every unsupported node (with its subtree) has been
  deleted, whatever the fuel, the collaborators and the position of the walker: same
  elements, same outcome, so an error can only come from what the document holds
  besides; deleting one such node anywhere among the children of a node gives the same
  pruned document; and a document in which no \<open>use\<close> element occurs is walked to its
  end without an error, given fuel for each of its nodes.
\<close>

theorem unsupported_nodes_skipped:
  "(\<forall>t n. snd (nextNode t) = Some n \<longrightarrow> tagName (element n) \<in> set SUPPORTED_TAGS) \<and>
   (\<forall>t n. snd (nextSibling t) = Some n \<longrightarrow> tagName (element n) \<in> set SUPPORTED_TAGS) \<and>
   (list_all (\<lambda>u. \<not> supported u) us \<and> supported s \<longrightarrow>
      (childNodes (currentNode t) = us @ s # rest \<longrightarrow>
         nextNode t = (\<lparr>currentNode = s, above = (element (currentNode t), rest) # above t\<rparr>, Some s)) \<and>
      (first_accepted (childNodes (currentNode t)) = None \<and> above t = (p, us @ s # rest) # ab \<longrightarrow>
         nextNode t = (\<lparr>currentNode = s, above = (p, rest) # ab\<rparr>, Some s)) \<and>
      (above t = (p, us @ s # rest) # ab \<longrightarrow>
         nextSibling t = (\<lparr>currentNode = s, above = (p, rest) # ab\<rparr>, Some s))) \<and>
   (following (above (tw args)) = None \<and> flat (childNodes (currentNode (tw args))) \<and>
    length (filter supported (childNodes (currentNode (tw args)))) \<le> fuel \<longrightarrow>
      walk_nextNode (walk fuel C) args =
        Some (Returned ((scene args)\<lparr>elements := elements (scene args) @
                concat (map (\<lambda>c. leaf_elements C (groups args) (element c))
                          (filter supported (childNodes (currentNode (tw args)))))\<rparr>))) \<and>
   walk fuel C (args\<lparr>tw := prune_tw (tw args)\<rparr>) (map_option prune node) = walk fuel C args node \<and>
   walk_nextNode (walk fuel C) (args\<lparr>tw := createTreeWalker (prune d)\<rparr>) =
     walk_nextNode (walk fuel C) (args\<lparr>tw := createTreeWalker d\<rparr>) \<and>
   (tagName (element u) \<notin> set SUPPORTED_TAGS \<longrightarrow>
      prune (Node e (before @ u # after)) = prune (Node e (before @ after))) \<and>
   (use_free d \<and> weight d \<le> fuel \<longrightarrow>
      (\<exists>sc. walk_nextNode (walk fuel C) (args\<lparr>tw := createTreeWalker d\<rparr>) = Some (Returned sc)))"
proof (intro conjI allI impI; (elim conjE)?)
  fix t n
  show "snd (nextNode t) = Some n \<Longrightarrow> tagName (element n) \<in> set SUPPORTED_TAGS"
    by (rule nextNode_supported)
  show "snd (nextSibling t) = Some n \<Longrightarrow> tagName (element n) \<in> set SUPPORTED_TAGS"
    by (rule nextSibling_supported)
next
  assume "list_all (\<lambda>u. \<not> supported u) us" "supported s" "childNodes (currentNode t) = us @ s # rest"
  then show "nextNode t = (\<lparr>currentNode = s, above = (element (currentNode t), rest) # above t\<rparr>, Some s)"
    by (simp add: nextNode_child)
next
  assume "list_all (\<lambda>u. \<not> supported u) us" "supported s"
    "first_accepted (childNodes (currentNode t)) = None" "above t = (p, us @ s # rest) # ab"
  then show "nextNode t = (\<lparr>currentNode = s, above = (p, rest) # ab\<rparr>, Some s)"
    by (simp add: nextNode_after)
next
  assume "list_all (\<lambda>u. \<not> supported u) us" "supported s" "above t = (p, us @ s # rest) # ab"
  then show "nextSibling t = (\<lparr>currentNode = s, above = (p, rest) # ab\<rparr>, Some s)"
    by (simp add: nextSibling_after)
next
  assume "following (above (tw args)) = None" "flat (childNodes (currentNode (tw args)))"
    "length (filter supported (childNodes (currentNode (tw args)))) \<le> fuel"
  then show "walk_nextNode (walk fuel C) args =
        Some (Returned ((scene args)\<lparr>elements := elements (scene args) @
                concat (map (\<lambda>c. leaf_elements C (groups args) (element c))
                          (filter supported (childNodes (currentNode (tw args)))))\<rparr>))"
    by (rule walk_flat_children)
next
  show "walk fuel C (args\<lparr>tw := prune_tw (tw args)\<rparr>) (map_option prune node) = walk fuel C args node"
    using walk_prune[of fuel C args node] by (simp add: prune_args_def)
next
  have "args\<lparr>tw := createTreeWalker (prune d)\<rparr> = prune_args (args\<lparr>tw := createTreeWalker d\<rparr>)"
    by (cases args) (simp add: prune_args_def createTreeWalker_prune)
  from walk_nextNode_prune[OF walk_ignores_pruning this]
  show "walk_nextNode (walk fuel C) (args\<lparr>tw := createTreeWalker (prune d)\<rparr>) =
          walk_nextNode (walk fuel C) (args\<lparr>tw := createTreeWalker d\<rparr>)" .
next
  assume "tagName (element u) \<notin> set SUPPORTED_TAGS"
  then show "prune (Node e (before @ u # after)) = prune (Node e (before @ after))"
    by (simp add: prune_list_append nodeValidator_def)
next
  assume "use_free d" "weight d \<le> fuel"
  then show "\<exists>sc. walk_nextNode (walk fuel C) (args\<lparr>tw := createTreeWalker d\<rparr>) = Some (Returned sc)"
    by (simp add: document_walk_returns)
qed

theorem unsupported_nodes_skipped_witness:
  "snd (nextNode (createTreeWalker (document svg_use))) = Some svg_use \<and>
   tagName (element svg_use) \<in> set SUPPORTED_TAGS \<and>
   nextNode (createTreeWalker svg_text) =
     (\<lparr>currentNode = Node (Element ''rect'' [(''width'', ''10''), (''height'', ''5'')]) [],
       above = [(Element ''svg'' [], [Node (Element ''title'' []) []])]\<rparr>,
      Some (Node (Element ''rect'' [(''width'', ''10''), (''height'', ''5'')]) [])) \<and>
   nextNode \<lparr>currentNode = Node (Element ''g'' []) [],
             above = [(Element ''svg'' [], [Node (Element ''defs'' []) [], use_path])]\<rparr> =
     (\<lparr>currentNode = use_path, above = [(Element ''svg'' [], [])]\<rparr>, Some use_path) \<and>
   nextSibling \<lparr>currentNode = Node (Element ''g'' []) [],
                above = [(Element ''svg'' [], [Node (Element ''defs'' []) [], use_path])]\<rparr> =
     (\<lparr>currentNode = use_path, above = [(Element ''svg'' [], [])]\<rparr>, Some use_path) \<and>
   tagName (element use_path) \<in> set SUPPORTED_TAGS \<and>
   prune svg_use = prune svg_use_plain \<and>
   prune (document svg_use) = document svg_use_plain \<and>
   walk_nextNode (walk 4 sample_collab) (start use_root (createTreeWalker (document svg_use_plain))) =
     walk_nextNode (walk 4 sample_collab) (start use_root (createTreeWalker (document svg_use))) \<and>
   use_free (document svg_text) \<and> weight (document svg_text) \<le> 6 \<and>
   (\<exists>sc. walk_nextNode (walk 6 sample_collab) (start (\<lambda>sel. None) (createTreeWalker (document svg_text)))
          = Some (Returned sc)) \<and>
   map_option (\<lambda>sc. map (\<lambda>e. (e ''type'', e ''x'', e ''y'', e ''width'', e ''height'')) (elements sc))
     (returned (walk_nextNode (walk 6 sample_collab)
                  (start (\<lambda>sel. None) (createTreeWalker (document svg_text)))))
   = Some [(Some (Str ''rectangle''), Some (Num 0), Some (Num 0), Some (Num 10), Some (Num 5))]"
proof -
  let ?rect = "Node (Element ''rect'' [(''width'', ''10''), (''height'', ''5'')]) []"
  let ?text = "Node (Element ''text'' [(''x'', ''5'')]) [Node (Element ''#text'' []) []]"
  let ?title = "Node (Element ''title'' []) []"
  let ?defs = "Node (Element ''defs'' []) []"
  let ?g = "\<lparr>currentNode = Node (Element ''g'' []) [], above = [(Element ''svg'' [], [?defs, use_path])]\<rparr>"
  let ?a = "start use_root (createTreeWalker (document svg_use))"
  let ?b = "start (\<lambda>sel. None) (createTreeWalker (document svg_text))"
  let ?s = "\<lparr>currentNode = svg_text, above = [(Element ''#document'' [], [])]\<rparr>"
  let ?c = "start (\<lambda>sel. None) ?s"
  note inst_use = unsupported_nodes_skipped
    [where fuel = 4 and C = sample_collab and args = ?a and node = None and d = "document svg_use"
       and u = "Node (Element ''defs'' []) [path_def, empty_def]" and e = "Element ''svg'' []"
       and before = "[]" and after = "[use_path, ?rect]"
       and t = "createTreeWalker svg_text" and us = "[?text]" and s = ?rect and rest = "[?title]"]
  note inst_sibling = unsupported_nodes_skipped
    [where t = ?g and us = "[?defs]" and s = use_path and rest = "[]" and p = "Element ''svg'' []"
       and ab = "[]"]
  note inst_flat = unsupported_nodes_skipped
    [where fuel = 5 and C = sample_collab and args = ?c]
  note inst_text = unsupported_nodes_skipped
    [where fuel = 6 and C = sample_collab and args = ?b and d = "document svg_text"]
  have first: "snd (nextNode (createTreeWalker (document svg_use))) = Some svg_use"
    by (simp add: document_def svg_use_def nextNode_def createTreeWalker_def nodeValidator_def SUPPORTED_TAGS_def)
  from inst_use first have tag1: "tagName (element svg_use) \<in> set SUPPORTED_TAGS"
    by blast
  have kids: "list_all (\<lambda>u. \<not> supported u) [?text] \<and> supported ?rect \<and>
      childNodes (currentNode (createTreeWalker svg_text)) = [?text] @ ?rect # [?title]"
    by (simp add: supported_def SUPPORTED_TAGS_def createTreeWalker_def svg_text_def)
  with inst_use have "nextNode (createTreeWalker svg_text) =
      (\<lparr>currentNode = ?rect, above = (element (currentNode (createTreeWalker svg_text)), [?title])
          # above (createTreeWalker svg_text)\<rparr>, Some ?rect)"
    by blast
  then have child: "nextNode (createTreeWalker svg_text) =
      (\<lparr>currentNode = ?rect, above = [(Element ''svg'' [], [?title])]\<rparr>, Some ?rect)"
    by (simp add: createTreeWalker_def svg_text_def)
  have sibs: "list_all (\<lambda>u. \<not> supported u) [?defs] \<and> supported use_path \<and>
      first_accepted (childNodes (currentNode ?g)) = None \<and>
      above ?g = (Element ''svg'' [], [?defs] @ use_path # []) # []"
    by (simp add: supported_def SUPPORTED_TAGS_def use_path_def)
  with inst_sibling have after: "nextNode ?g = (\<lparr>currentNode = use_path, above = [(Element ''svg'' [], [])]\<rparr>, Some use_path)"
    and sibling: "nextSibling ?g = (\<lparr>currentNode = use_path, above = [(Element ''svg'' [], [])]\<rparr>, Some use_path)"
    by blast+
  from sibling have "snd (nextSibling ?g) = Some use_path"
    by simp
  with inst_use have tag2: "tagName (element use_path) \<in> set SUPPORTED_TAGS"
    by blast
  have "tagName (element (Node (Element ''defs'' []) [path_def, empty_def])) \<notin> set SUPPORTED_TAGS"
    by (simp add: SUPPORTED_TAGS_def)
  with inst_use have "prune (Node (Element ''svg'' []) ([] @ Node (Element ''defs'' []) [path_def, empty_def] # [use_path, ?rect]))
      = prune (Node (Element ''svg'' []) ([] @ [use_path, ?rect]))"
    by blast
  then have deleted: "prune svg_use = prune svg_use_plain"
    by (simp only: svg_use_def svg_use_plain_def append_Nil)
  have pruned: "prune (document svg_use) = document svg_use_plain"
    by (simp add: document_def svg_use_def svg_use_plain_def use_path_def path_def_def empty_def_def
          nodeValidator_def SUPPORTED_TAGS_def)
  from inst_use have "walk_nextNode (walk 4 sample_collab) (?a\<lparr>tw := createTreeWalker (prune (document svg_use))\<rparr>) =
      walk_nextNode (walk 4 sample_collab) (?a\<lparr>tw := createTreeWalker (document svg_use)\<rparr>)"
    by blast
  then have same: "walk_nextNode (walk 4 sample_collab) (start use_root (createTreeWalker (document svg_use_plain))) =
      walk_nextNode (walk 4 sample_collab) (start use_root (createTreeWalker (document svg_use)))"
    by (simp add: pruned start_def del: walk.simps)
  have free: "use_free (document svg_text)" and small: "weight (document svg_text) \<le> 6"
    by (simp_all add: document_def svg_text_def)
  from inst_text free small
  have "\<exists>sc. walk_nextNode (walk 6 sample_collab) (?b\<lparr>tw := createTreeWalker (document svg_text)\<rparr>)
      = Some (Returned sc)"
    by blast
  then have ret: "\<exists>sc. walk_nextNode (walk 6 sample_collab) ?b = Some (Returned sc)"
    by (simp add: start_def del: walk.simps)
  have level: "following (above (tw ?c)) = None \<and> flat (childNodes (currentNode (tw ?c))) \<and>
      length (filter supported (childNodes (currentNode (tw ?c)))) \<le> 5"
    by (simp add: start_def svg_text_def flat_def supported_def SUPPORTED_TAGS_def leaf_shapes_def)
  have only: "filter supported (childNodes (currentNode (tw ?c))) = [?rect]"
    by (simp add: start_def svg_text_def supported_def SUPPORTED_TAGS_def)
  from inst_flat level have "walk_nextNode (walk 5 sample_collab) ?c =
        Some (Returned ((scene ?c)\<lparr>elements := elements (scene ?c) @
                concat (map (\<lambda>c. leaf_elements sample_collab (groups ?c) (element c))
                          (filter supported (childNodes (currentNode (tw ?c)))))\<rparr>))"
    by blast
  then have inner: "walk_nextNode (walk 5 sample_collab) ?c =
        Some (Returned \<lparr>elements = leaf_elements sample_collab [] (Element ''rect'' [(''width'', ''10''), (''height'', ''5'')])\<rparr>)"
    unfolding only by (simp add: start_def new_ExcalidrawScene_def)
  have six: "(6::nat) = Suc 5" by simp
  have "walk_nextNode (walk 6 sample_collab) ?b = walk 6 sample_collab ?c (Some svg_text)"
    by (simp add: walk_nextNode_def nextNode_def createTreeWalker_def document_def start_def
          nodeValidator_def SUPPORTED_TAGS_def svg_text_def del: walk.simps)
  also have "\<dots> = walk_nextNode (walk 5 sample_collab) ?c"
    unfolding six by (subst walk.simps(3)) (simp add: walkers_svg_def svg_text_def)
  finally have enter: "walk_nextNode (walk 6 sample_collab) ?b = walk_nextNode (walk 5 sample_collab) ?c" .
  have out: "map_option (\<lambda>sc. map (\<lambda>e. (e ''type'', e ''x'', e ''y'', e ''width'', e ''height'')) (elements sc))
     (returned (walk_nextNode (walk 6 sample_collab) ?b))
   = Some [(Some (Str ''rectangle''), Some (Num 0), Some (Num 0), Some (Num 10), Some (Num 5))]"
    unfolding enter inner by (simp add: returned_def sample_rect_elements)
  from first tag1 child after sibling tag2 deleted pruned same free small ret out show ?thesis
    by (intro conjI)
qed

section \<open>Reference resolution in the walk\<close>

lemma walk_use_unresolved:
  assumes "tagName (element node) = ''use''"
    and "(getAttribute (element (currentNode (tw args))) ''href'' = None \<and>
          getAttribute (element (currentNode (tw args))) ''xlink:href'' = None) \<or>
         root args (or_empty (js_or (getAttribute (element (currentNode (tw args))) ''href'')
                                    (getAttribute (element (currentNode (tw args))) ''xlink:href''))) = None"
  shows "walk (Suc fuel) C args (Some node) = Some (Thrown ReferenceNotFound (scene args))"
  using assms by (auto simp: walkers_use_def Let_def js_or_def truthy_def)

lemma walk_g_throws:
  assumes "tagName (element node) = ''g''"
    and "walk_nextNode (walk fuel C)
           (args\<lparr>tw := createTreeWalker (currentNode (tw args)),
                 groups := groups args @ [newGroup C (element (currentNode (tw args)))]\<rparr>)
         = Some (Thrown e sc)"
  shows "walk (Suc fuel) C args (Some node) = Some (Thrown e sc)"
  using assms by (simp add: walkers_g_def Let_def)

lemma walk_use_resolved:
  assumes "tagName (element node) = ''use''"
    and "js_or (getAttribute (element (currentNode (tw args))) ''href'')
               (getAttribute (element (currentNode (tw args))) ''xlink:href'') = Some ref"
    and "ref \<noteq> []"
    and "root args ref = Some defEl"
    and "walk fuel C
           (args\<lparr>scene := new_ExcalidrawScene,
                 tw := createTreeWalker (getDefElWithCorrectAttrs defEl (currentNode (tw args)))\<rparr>)
           (Some (getDefElWithCorrectAttrs defEl (currentNode (tw args))))
         = Some (Returned tempScene)"
  shows "walk (Suc fuel) C args (Some node) =
           (if elements tempScene = [] then Some (Thrown EmptyResolution (scene args))
            else walk_nextNode (walk fuel C)
                   (args\<lparr>scene := (scene args)\<lparr>elements := elements (scene args) @ [last (elements tempScene)]\<rparr>\<rparr>))"
  using assms by (simp add: walkers_use_def Let_def truthy_def or_empty_def pop_def push_def)

text \<open>
  Claim C7, as the spec states it, fails in its last part: "on error the scene is left
  as if no conversion output had been produced". \<open>walk\<close> appends to the scene object
  of its caller as it goes and never takes anything back: in the sample document the
  \<open>rect\<close> before the unresolvable \<open>use\<close> is in the caller's scene when the error
  arrives.
\<close>

theorem use_error_keeps_earlier_elements:
  "map_option (\<lambda>(e, sc). (e, props ''type'' sc))
     (thrown (walk_nextNode (walk 3 sample_collab)
                (start (\<lambda>sel. None) (createTreeWalker (document svg_missing)))))
   = Some (ReferenceNotFound, [Some (Str ''rectangle'')])"
  by (simp add: eval_nat_numeral walk_eval sample_eval sample_collab_def thrown_def)

text \<open>
  Claim C7, amended: a \<open>use\<close> node that has neither an \<open>href\<close> nor an
  \<open>xlink:href\<close> attribute, or whose reference finds no element in the document,
  raises \<open>ReferenceNotFound\<close>; nothing is appended for it or after it, and an
  enclosing \<open>g\<close> scope passes the error on unchanged instead of resuming at its
  sibling, so the whole conversion is aborted. The caller's scene object is left as it
  was when the \<open>use\<close> node was reached: the elements appended before it stay.
\<close>

theorem use_reference_not_found:
  "(tagName (element node) = ''use'' \<and>
    ((getAttribute (element (currentNode (tw args))) ''href'' = None \<and>
      getAttribute (element (currentNode (tw args))) ''xlink:href'' = None) \<or>
     root args (or_empty (js_or (getAttribute (element (currentNode (tw args))) ''href'')
                                (getAttribute (element (currentNode (tw args))) ''xlink:href''))) = None)
    \<longrightarrow> walk (Suc fuel) C args (Some node) = Some (Thrown ReferenceNotFound (scene args))) \<and>
   (tagName (element node) = ''g'' \<and>
    walk_nextNode (walk fuel C)
      (args\<lparr>tw := createTreeWalker (currentNode (tw args)),
            groups := groups args @ [newGroup C (element (currentNode (tw args)))]\<rparr>)
      = Some (Thrown e sc)
    \<longrightarrow> walk (Suc fuel) C args (Some node) = Some (Thrown e sc))"
  using walk_use_unresolved[of node args fuel C] walk_g_throws[of node fuel C args e sc]
  by blast

theorem use_reference_not_found_witness:
  "walk 1 sample_collab (start (\<lambda>sel. None) (createTreeWalker use_missing)) (Some use_missing)
     = Some (Thrown ReferenceNotFound new_ExcalidrawScene) \<and>
   walk 2 sample_collab (start (\<lambda>sel. None) (createTreeWalker group_missing)) (Some group_missing)
     = Some (Thrown ReferenceNotFound new_ExcalidrawScene)"
  using use_reference_not_found
          [where fuel = 0 and C = sample_collab and node = use_missing
             and args = "start (\<lambda>sel. None) (createTreeWalker use_missing)"]
        use_reference_not_found
          [where fuel = 1 and C = sample_collab and node = group_missing
             and args = "start (\<lambda>sel. None) (createTreeWalker group_missing)"
             and e = ReferenceNotFound and sc = new_ExcalidrawScene]
  by (simp add: eval_nat_numeral walk_eval sample_eval sample_collab_def group_missing_def)


text \<open>The merged elements of the two resolvable sample references.\<close>

lemma merged_path:
  "getDefElWithCorrectAttrs path_def use_path =
     Node (Element ''path'' [(''id'', ''p''), (''d'', ''M0 0L5 5M5 0L10 5''), (''href'', ''#p'')]) []"
  by (simp add: dom_eval sample_eval)


text \<open>Their conversion on a scene of their own: two elements for the path, none for the empty group.\<close>

lemma sub_walk_path:
  "walk (Suc fuel) sample_collab
     (a\<lparr>scene := new_ExcalidrawScene, tw := createTreeWalker (getDefElWithCorrectAttrs path_def use_path)\<rparr>)
     (Some (getDefElWithCorrectAttrs path_def use_path))
   = Some (Returned
       \<lparr>elements =
          [obj_of_RawElement \<lparr>type = ''line'', x = 0, y = 0, width = 5, height = 5, points = [(0, 0), (5, 5)]\<rparr>,
           obj_of_RawElement \<lparr>type = ''line'', x = 5, y = 0, width = 5, height = 5, points = [(0, 0), (5, 5)]\<rparr>]\<rparr>)"
  unfolding merged_path
  by (simp add: sample_path_elements [OF _ refl] createTreeWalker_def walk_nextNode_def nextNode_def
        new_ExcalidrawScene_def)













text \<open>
  Claim C10: when the conversion of the merged element leaves two or more elements in
  the sub-scene, the walk goes on with the caller's scene grown by the last of them
  only; the earlier ones are dropped, and the step raises no error.
\<close>

theorem use_keeps_last_element:
  assumes "tagName (element node) = ''use''"
    and "js_or (getAttribute (element (currentNode (tw args))) ''href'')
               (getAttribute (element (currentNode (tw args))) ''xlink:href'') = Some ref"
    and "ref \<noteq> []"
    and "root args ref = Some defEl"
    and "walk fuel C
           (args\<lparr>scene := new_ExcalidrawScene,
                 tw := createTreeWalker (getDefElWithCorrectAttrs defEl (currentNode (tw args)))\<rparr>)
           (Some (getDefElWithCorrectAttrs defEl (currentNode (tw args))))
         = Some (Returned tempScene)"
    and "2 \<le> length (elements tempScene)"
  shows "walk (Suc fuel) C args (Some node) =
           walk_nextNode (walk fuel C)
             (args\<lparr>scene := (scene args)\<lparr>elements := elements (scene args) @ [last (elements tempScene)]\<rparr>\<rparr>)"
proof -
  from assms(6) have "elements tempScene \<noteq> []"
    by auto
  with walk_use_resolved[OF assms(1-5)] show ?thesis
    by simp
qed

lemma walk_svg:
  "tagName (element n) = ''svg'' \<Longrightarrow> walk (Suc f) C a (Some n) = walk_nextNode (walk f C) a"
  by (simp add: walkers_svg_def)

lemma walk_rect:
  "tagName (element n) = ''rect'' \<Longrightarrow> walk (Suc f) C a (Some n) = walkers_rect (walk f C) C a"
  by simp

lemma walk_null: "walk f C a None = Some (Returned (scene a))"
  by simp

theorem use_keeps_last_element_witness:
  "map_option (\<lambda>sc. (props ''type'' sc, props ''x'' sc))
     (returned (walk_nextNode (walk 4 sample_collab) (start use_root (createTreeWalker (document svg_use)))))
   = Some ([Some (Str ''line''), Some (Str ''rectangle'')], [Some (Num 5), Some (Num 0)])"
proof -
  let ?rect = "Node (Element ''rect'' [(''width'', ''10''), (''height'', ''5'')]) []"
  let ?a = "\<lparr>root = use_root,
             tw = \<lparr>currentNode = use_path,
                    above = [(Element ''svg'' [], [?rect]), (Element ''#document'' [], [])]\<rparr>,
             scene = new_ExcalidrawScene, groups = []\<rparr>"
  let ?es = "[obj_of_RawElement \<lparr>type = ''line'', x = 0, y = 0, width = 5, height = 5, points = [(0, 0), (5, 5)]\<rparr>,
              obj_of_RawElement \<lparr>type = ''line'', x = 5, y = 0, width = 5, height = 5, points = [(0, 0), (5, 5)]\<rparr>]"
  have h1: "tagName (element use_path) = ''use''"
    by (simp add: use_path_def)
  have h2: "js_or (getAttribute (element (currentNode (tw ?a))) ''href'')
                  (getAttribute (element (currentNode (tw ?a))) ''xlink:href'') = Some ''#p''"
    by (simp add: use_path_def js_or_def truthy_def getAttribute_def)
  have h4: "root ?a ''#p'' = Some path_def"
    by (simp add: use_root_def)
  have h5: "walk (Suc (Suc 0)) sample_collab
              (?a\<lparr>scene := new_ExcalidrawScene,
                   tw := createTreeWalker (getDefElWithCorrectAttrs path_def (currentNode (tw ?a)))\<rparr>)
              (Some (getDefElWithCorrectAttrs path_def (currentNode (tw ?a))))
            = Some (Returned \<lparr>elements = ?es\<rparr>)"
    using sub_walk_path [of "Suc 0" ?a] by (simp del: walk.simps)
  have step: "walk (Suc (Suc (Suc 0))) sample_collab ?a (Some use_path) =
      walk_nextNode (walk (Suc (Suc 0)) sample_collab)
        (?a\<lparr>scene := (scene ?a)\<lparr>elements := elements (scene ?a) @ [last ?es]\<rparr>\<rparr>)"
    using use_keeps_last_element [OF h1 h2 _ h4 h5] by (simp del: walk.simps)
  have whole: "walk_nextNode (walk (Suc (Suc (Suc (Suc 0)))) sample_collab)
                 (start use_root (createTreeWalker (document svg_use)))
             = walk (Suc (Suc (Suc 0))) sample_collab ?a (Some use_path)"
    by (simp add: walk_svg walk_nextNode_def nextNode_def createTreeWalker_def nodeValidator_def
          SUPPORTED_TAGS_def start_def document_def svg_use_def use_path_def path_def_def empty_def_def
          del: walk.simps)
  have rest: "map_option (\<lambda>sc. (props ''type'' sc, props ''x'' sc))
      (returned (walk_nextNode (walk (Suc (Suc 0)) sample_collab)
        (?a\<lparr>scene := (scene ?a)\<lparr>elements := elements (scene ?a) @ [last ?es]\<rparr>\<rparr>)))
     = Some ([Some (Str ''line''), Some (Str ''rectangle'')], [Some (Num 5), Some (Num 0)])"
    by (simp add: walk_rect walk_null walk_eval use_path_def sample_collab_def returned_def obj_of_RawElement_def
          mat4_identity_def mat4_fromValues_def mat4_multiply_def
          del: walk.simps)
  have four: "(4::nat) = Suc (Suc (Suc (Suc 0)))"
    by simp
  show ?thesis
    by (simp only: four whole step rest)
qed


section \<open>Group membership of the emitted elements\<close>

text \<open>
  What each shape walker writes into \<open>groupIds\<close>: \<open>circle\<close> and \<open>ellipse\<close> the
  identifiers of the group stack, outermost first; \<open>rect\<close>, \<open>path\<close> and
  \<open>polyline\<close> nothing, so that their elements carry whatever the factory and the
  attribute mappers put there.
\<close>

lemma circle_groupIds:
  "\<exists>circle. circle ''groupIds'' = Some (Strings (map group_id (groups a))) \<and>
     walkers_circle w C a = walk_nextNode w (a\<lparr>scene := push (scene a) circle\<rparr>)"
  unfolding walkers_circle_def Let_def
  by (rule exI, rule conjI [OF _ refl]) (simp add: map_add_def)

lemma ellipse_groupIds:
  "\<exists>ellipse. ellipse ''groupIds'' = Some (Strings (map group_id (groups a))) \<and>
     walkers_ellipse w C a = walk_nextNode w (a\<lparr>scene := push (scene a) ellipse\<rparr>)"
  unfolding walkers_ellipse_def Let_def
  by (rule exI, rule conjI [OF _ refl]) (simp add: map_add_def)

lemma rect_groupIds:
  "\<exists>rect. rect ''groupIds'' =
            (createExRect C ++ presAttrs C (element (currentNode (tw a))) (groups a)) ''groupIds'' \<and>
     walkers_rect w C a = walk_nextNode w (a\<lparr>scene := push (scene a) rect\<rparr>)"
  unfolding walkers_rect_def Let_def
  by (rule exI, rule conjI [OF _ refl]) (simp add: map_add_def)

lemma polyline_groupIds:
  "\<exists>line. line ''groupIds'' = (createExLine C ++ getGroupAttrs C (groups a)) ''groupIds'' \<and>
     walkers_polyline w C a = walk_nextNode w (a\<lparr>scene := push (scene a) line\<rparr>)"
  unfolding walkers_polyline_def Let_def
  by (rule exI, rule conjI [OF _ refl]) (simp add: map_add_def)

text \<open>
  The group stack is nested: the subtree of a \<open>g\<close> node is walked with the caller's
  stack and one new group at its end, and the walk resumes at the sibling with the
  caller's stack.
\<close>

lemma group_stack_nested:
  assumes "tagName (element node) = ''g''"
    and "walk_nextNode (walk fuel C)
           (args\<lparr>tw := createTreeWalker (currentNode (tw args)),
                 groups := groups args @ [newGroup C (element (currentNode (tw args)))]\<rparr>)
         = Some (Returned sc)"
    and "nextSibling (tw args) = (tw', sibling)"
  shows "walk (Suc fuel) C args (Some node) = walk fuel C (args\<lparr>tw := tw', scene := sc\<rparr>) sibling"
    and "groups (args\<lparr>tw := tw', scene := sc\<rparr>) = groups args"
  using assms by (simp_all add: walkers_g_def Let_def)

text \<open>
  Claim C8 fails on the code for the shapes other than \<open>circle\<close> and \<open>ellipse\<close>.
  In the sample document a circle and a rect sit in the group \<open>A\<close>: the circle comes
  out with \<open>groupIds = ["A"]\<close>, the rect with the empty list of the factory.
\<close>

theorem rect_in_group_without_groupIds:
  "map_option (\<lambda>sc. (props ''type'' sc, props ''groupIds'' sc))
     (returned (walk_nextNode (walk 4 sample_collab)
                  (start (\<lambda>sel. None) (createTreeWalker (document svg_group)))))
   = Some ([Some (Str ''ellipse''), Some (Str ''rectangle'')],
           [Some (Strings [''A'']), Some (Strings [])])"
  by (simp add: eval_nat_numeral walk_eval sample_eval sample_collab_def returned_def)

lemma map_option_snd_component:
  "map_option (\<lambda>sc. (f sc, g sc)) r = Some (a, b) \<Longrightarrow> map_option g r = Some b"
  by (cases r) auto

theorem rect_in_group_without_groupIds_witness:
  "map_option (props ''groupIds'')
     (returned (walk_nextNode (walk 4 sample_collab)
                  (start (\<lambda>sel. None) (createTreeWalker (document svg_group)))))
   = Some [Some (Strings [''A'']), Some (Strings [])]"
  using rect_in_group_without_groupIds by (rule map_option_snd_component)

section \<open>The merged element of a reference\<close>

text \<open>
  What the reduction computes, attribute by attribute, when the names of the attributes of
  \<open>use\<close> are distinct (as they are in a document): an attribute of \<open>use\<close> is
  written onto the copy of the definition when its value is not \<open>id\<close> and the
  definition lacks it or its name is in the override list; every other attribute of the
  copy is the definition's.
\<close>

lemma map_of_set_attr: "map_of (set_attr as name v) = (map_of as)(name \<mapsto> v)"
  by (induction as name v rule: set_attr.induct) auto

lemma getAttribute_setAttribute:
  "getAttribute (setAttribute el name v) k = (if k = name then Some v else getAttribute el k)"
  by (simp add: getAttribute_def setAttribute_def map_of_set_attr)

lemma merge_fold:
  assumes "distinct (map fst us)" and "\<forall>(k, v) \<in> set us. val k = v"
  shows "getAttribute
           (element
              (foldl (\<lambda>el attr.
                        if snd attr \<in> set skippedUseAttrs then el
                        else if \<not> hasAttribute d (fst attr) \<or> fst attr \<in> set allwaysPassedUseAttrs
                             then Node (setAttribute (element el) (fst attr) (val (fst attr))) (childNodes el)
                             else el)
                 el us))
           name =
         (case map_of us name of
            None \<Rightarrow> getAttribute (element el) name
          | Some v \<Rightarrow>
              if v \<notin> set skippedUseAttrs \<and> (\<not> hasAttribute d name \<or> name \<in> set allwaysPassedUseAttrs)
              then Some v else getAttribute (element el) name)"
  using assms
proof (induction us arbitrary: el)
  case Nil
  then show ?case by simp
next
  case (Cons a us)
  obtain k v where a: "a = (k, v)" by (cases a)
  from Cons.prems have d: "distinct (map fst us)" and vs: "\<forall>(k, v) \<in> set us. val k = v"
    and kv: "val k = v" and fresh: "map_of us k = None"
    by (auto simp: a map_of_eq_None_iff)
  show ?case
    using fresh kv
    by (simp add: a Cons.IH[OF d vs] getAttribute_setAttribute split: option.splits)
qed

lemma merged_attribute:
  assumes "distinct (map fst (attributes (element useEl)))"
  shows "getAttribute (element (getDefElWithCorrectAttrs defEl useEl)) name =
     (case getAttribute (element useEl) name of
        None \<Rightarrow> getAttribute (element defEl) name
      | Some v \<Rightarrow>
          if v \<noteq> ''id'' \<and> (\<not> hasAttribute (element defEl) name \<or> name \<in> set allwaysPassedUseAttrs)
          then Some v else getAttribute (element defEl) name)"
proof -
  have "\<forall>(k, v) \<in> set (attributes (element useEl)). or_empty (getAttribute (element useEl) k) = v"
    using assms by (auto simp: getAttribute_def or_empty_def)
  from merge_fold[OF assms this, of "element defEl" "cloneNode defEl" name]
  show ?thesis
    by (simp add: getDefElWithCorrectAttrs_def getAttribute_def cloneNode_def skippedUseAttrs_def
          split: option.splits)
qed

text \<open>
  Claim C1 fails on the code through the first test of the reduction, which compares
  the attribute's value, not its name, with \<open>id\<close>. An attribute of \<open>use\<close> whose
  value is \<open>id\<close> is not adopted although the definition lacks it (\<open>class\<close> below;
  \<open>fill\<close> and \<open>x\<close> follow the precedence), and the \<open>id\<close> attribute of
  \<open>use\<close> is copied when the definition has none.
\<close>

theorem use_attribute_with_value_id_dropped:
  "getDefElWithCorrectAttrs
     (Node (Element ''rect'' [(''id'', ''r''), (''fill'', ''red'')]) [])
     (Node (Element ''use'' [(''href'', ''#r''), (''fill'', ''blue''), (''x'', ''5''), (''class'', ''id'')]) [])
   = Node (Element ''rect'' [(''id'', ''r''), (''fill'', ''red''), (''href'', ''#r''), (''x'', ''5'')]) [] \<and>
   getDefElWithCorrectAttrs
     (Node (Element ''rect'' [(''fill'', ''red'')]) [])
     (Node (Element ''use'' [(''id'', ''u''), (''href'', ''rect'')]) [])
   = Node (Element ''rect'' [(''fill'', ''red''), (''id'', ''u''), (''href'', ''rect'')]) []"
  by (simp add: dom_eval)

theorem use_attribute_with_value_id_dropped_witness:
  "getAttribute
     (element
        (getDefElWithCorrectAttrs
           (Node (Element ''rect'' [(''id'', ''r''), (''fill'', ''red'')]) [])
           (Node (Element ''use'' [(''href'', ''#r''), (''fill'', ''blue''), (''x'', ''5''), (''class'', ''id'')]) [])))
     ''class'' = None \<and>
   getAttribute
     (element
        (getDefElWithCorrectAttrs
           (Node (Element ''rect'' [(''fill'', ''red'')]) [])
           (Node (Element ''use'' [(''id'', ''u''), (''href'', ''rect'')]) [])))
     ''id'' = Some ''u''"
  using use_attribute_with_value_id_dropped by (simp add: getAttribute_def)

end
